theory Spec2Isabelle
  imports Main "HOL-Library.Signed_Division" "HOL-Library.AList"
begin

section \<open>JavaScript dates\<close>

text \<open>
  A JavaScript \<^verbatim>\<open>Date\<close> is its time value, the milliseconds since the epoch, an
  integer here. Two dates compare by their time values. The calendar methods
  (\<^verbatim>\<open>getDay\<close>, \<^verbatim>\<open>getHours\<close>, \<^verbatim>\<open>setHours\<close>, \<^verbatim>\<open>setDate\<close>, \<^verbatim>\<open>setMinutes\<close>) read and write
  local time. The zone of the process is a parameter \<open>tz\<close>: its offset from UTC in
  milliseconds, the same at every instant (a zone without daylight-saving changes).
  Invalid dates and the finite range of time values are outside the model.
\<close>

type_synonym date = int

definition msPerMinute :: int where
  "msPerMinute = 60000"

definition msPerHour :: int where
  "msPerHour = 3600000"

definition msPerDay :: int where
  "msPerDay = 86400000"

text \<open>The number of the local calendar day that holds the instant \<open>t\<close>.\<close>

definition localDay :: "int \<Rightarrow> date \<Rightarrow> int" where
  "localDay tz t = (t + tz) div msPerDay"

text \<open>\<^verbatim>\<open>getDay()\<close>: 0 is Sunday; day 0 of the epoch was a Thursday.\<close>

definition getDay :: "int \<Rightarrow> date \<Rightarrow> int" where
  "getDay tz t = (localDay tz t + 4) mod 7"

definition getHours :: "int \<Rightarrow> date \<Rightarrow> int" where
  "getHours tz t = ((t + tz) mod msPerDay) div msPerHour"

definition getMinutes :: "int \<Rightarrow> date \<Rightarrow> int" where
  "getMinutes tz t = (((t + tz) mod msPerDay) mod msPerHour) div msPerMinute"

text \<open>
  \<^verbatim>\<open>d.setHours(h, m, 0, 0)\<close>: the local day of \<open>d\<close> is kept, the time of day becomes
  \<open>h\<close> hours and \<open>m\<close> minutes; values outside a day carry into the neighbouring days.
\<close>

definition setHours :: "int \<Rightarrow> date \<Rightarrow> int \<Rightarrow> int \<Rightarrow> date" where
  "setHours tz t h m = localDay tz t * msPerDay + h * msPerHour + m * msPerMinute - tz"

text \<open>\<^verbatim>\<open>d.setMinutes(d.getMinutes() + k)\<close> moves \<open>d\<close> by \<open>k\<close> minutes.\<close>

definition addMinutes :: "date \<Rightarrow> int \<Rightarrow> date" where
  "addMinutes t k = t + k * msPerMinute"

text \<open>
  \<^verbatim>\<open>d.setDate(d.getDate() - k)\<close> moves \<open>d\<close> back by \<open>k\<close> calendar days and keeps
  its local time of day.
\<close>

definition subDays :: "date \<Rightarrow> int \<Rightarrow> date" where
  "subDays t k = t - k * msPerDay"

text \<open>JavaScript's \<^verbatim>\<open>x || d\<close> on a number: zero is falsy.\<close>

definition orDefault :: "int \<Rightarrow> int \<Rightarrow> int" where
  "orDefault x d = (if x = 0 then d else x)"

text \<open>Truthiness of a nullable boolean: \<^verbatim>\<open>null\<close> is falsy.\<close>

fun truthy :: "bool option \<Rightarrow> bool" where
  "truthy None = False"
| "truthy (Some b) = b"

section \<open>Data model (shared schema)\<close>

datatype role = Admin | Teacher | Student

record user =
  user_id :: int
  role :: role
  user_classId :: "int option"

text \<open>
  The columns of \<^verbatim>\<open>lessons\<close> that the attendance code reads. \<^verbatim>\<open>is_active\<close> and
  \<^verbatim>\<open>created_at\<close> are nullable columns.
\<close>

record lesson =
  lesson_id :: int
  classId :: int
  teacherId :: int
  dayOfWeek :: int
  startTimeMinutes :: int
  durationMinutes :: int
  attendanceWindowMinutes :: int
  isActive :: "bool option"
  createdAt :: "date option"

datatype attendanceStatus = Present | Absent

text \<open>
  \<^verbatim>\<open>InsertAttendance\<close>: the parsed request body. The schema lets a body leave the
  status to the column default; the model is of bodies that carry one.
\<close>

record insertAttendance =
  lessonId :: int
  studentId :: int
  status :: attendanceStatus

text \<open>\<^verbatim>\<open>Attendance\<close>: a row of the table.\<close>

record attendance = insertAttendance +
  att_id :: int
  markedAt :: "date option"
  att_createdAt :: "date option"

section \<open>The attendance window of the mark-attendance handler\<close>

definition daysUntilNext :: "int \<Rightarrow> date \<Rightarrow> lesson \<Rightarrow> int" where
  "daysUntilNext tz now l = (dayOfWeek l - getDay tz now + 7) smod 7"

text \<open>
  \<^verbatim>\<open>lessonDate\<close>: the start of the occurrence the handler resolves. It is \<open>now\<close>, moved
  back to the most recent day with the lesson's weekday when that is not today, with the
  time of day set from \<^verbatim>\<open>startTimeMinutes\<close>.
\<close>

definition lessonDate :: "int \<Rightarrow> date \<Rightarrow> lesson \<Rightarrow> date" where
  "lessonDate tz now l =
     (let d = (if dayOfWeek l \<noteq> getDay tz now
               then subDays now ((getDay tz now - dayOfWeek l + 7) smod 7)
               else now);
          startHours = startTimeMinutes l div 60;
          startMinutes = startTimeMinutes l smod 60
      in setHours tz d startHours startMinutes)"

text \<open>
  \<^verbatim>\<open>isInstantLesson = lesson.createdAt && (now - createdAt < 24h)\<close>: \<^verbatim>\<open>null\<close> when the
  lesson has no creation time.
\<close>

definition isInstantLesson :: "date \<Rightarrow> lesson \<Rightarrow> bool option" where
  "isInstantLesson now l =
     (case createdAt l of
        None \<Rightarrow> None
      | Some c \<Rightarrow> Some (now - c < 24 * 60 * 60 * 1000))"

definition preClassWindow :: "int \<Rightarrow> date \<Rightarrow> lesson \<Rightarrow> date" where
  "preClassWindow tz now l =
     (if truthy (isInstantLesson now l)
      then (case createdAt l of Some c \<Rightarrow> c | None \<Rightarrow> now)
      else addMinutes (lessonDate tz now l) (- 10))"

definition lessonEndTime :: "int \<Rightarrow> date \<Rightarrow> lesson \<Rightarrow> date" where
  "lessonEndTime tz now l =
     (if truthy (isInstantLesson now l)
      then addMinutes (preClassWindow tz now l) (orDefault (attendanceWindowMinutes l) 30)
      else addMinutes (lessonDate tz now l) (durationMinutes l))"

section \<open>The attendance table (DatabaseStorage)\<close>

text \<open>
  The table \<^verbatim>\<open>attendance\<close> is the list of its rows, in the order a select returns
  them, with the sequence behind the serial column \<^verbatim>\<open>id\<close>. Every statement of the
  storage layer is one function. The schema declares \<^verbatim>\<open>id\<close> the primary key and
  \<^verbatim>\<open>lesson_student_idx\<close> a unique constraint on (lesson_id, student_id); an insert
  that would break either fails, and the sequence value it drew is used up.
\<close>

record attendanceTable =
  rows :: "attendance list"
  nextId :: int

datatype db_error = PrimaryKeyViolation int | UniqueViolation int int

definition samePair :: "int \<Rightarrow> int \<Rightarrow> attendance \<Rightarrow> bool" where
  "samePair lid sid r \<longleftrightarrow> lessonId r = lid \<and> studentId r = sid"

definition db_select :: "int \<Rightarrow> int \<Rightarrow> attendanceTable \<Rightarrow> attendance list" where
  "db_select lid sid tbl = filter (samePair lid sid) (rows tbl)"

definition db_delete :: "int \<Rightarrow> attendanceTable \<Rightarrow> attendanceTable" where
  "db_delete i tbl = tbl\<lparr>rows := filter (\<lambda>r. att_id r \<noteq> i) (rows tbl)\<rparr>"

text \<open>The update statement, returning the rows it changed.\<close>

definition db_update ::
  "int \<Rightarrow> attendanceStatus \<Rightarrow> date \<Rightarrow> attendanceTable \<Rightarrow> attendance list \<times> attendanceTable" where
  "db_update i s t tbl =
     (let rows' = map (\<lambda>r. if att_id r = i then r\<lparr>status := s, markedAt := Some t\<rparr> else r)
                      (rows tbl)
      in (filter (\<lambda>r. att_id r = i) rows', tbl\<lparr>rows := rows'\<rparr>))"

text \<open>
  The insert statement: \<^verbatim>\<open>id\<close> from the sequence, \<^verbatim>\<open>marked_at\<close> as given,
  \<^verbatim>\<open>created_at\<close> from its default (the same clock reading here).
\<close>

definition db_insert ::
  "insertAttendance \<Rightarrow> date \<Rightarrow> attendanceTable \<Rightarrow> (db_error + attendance) \<times> attendanceTable" where
  "db_insert d t tbl =
     (let i = nextId tbl;
          r = \<lparr>lessonId = lessonId d, studentId = studentId d, status = status d,
               att_id = i, markedAt = Some t, att_createdAt = Some t\<rparr>;
          tbl' = tbl\<lparr>nextId := i + 1\<rparr>
      in if i \<in> set (map att_id (rows tbl)) then (Inl (PrimaryKeyViolation i), tbl')
         else if db_select (lessonId d) (studentId d) tbl \<noteq> []
              then (Inl (UniqueViolation (lessonId d) (studentId d)), tbl')
         else (Inr r, tbl'\<lparr>rows := rows tbl @ [r]\<rparr>))"

text \<open>
  \<^verbatim>\<open>DatabaseStorage.markAttendance\<close>, run without interruption: select the rows of the
  pair; when there are some, delete all but the first and update the first; otherwise
  insert. The result is the returned row (\<open>None\<close> when the update returned no row) or the
  error thrown.
\<close>

definition markAttendance ::
  "insertAttendance \<Rightarrow> date \<Rightarrow> attendanceTable
     \<Rightarrow> (db_error + attendance option) \<times> attendanceTable" where
  "markAttendance attendanceData t tbl =
     (case db_select (lessonId attendanceData) (studentId attendanceData) tbl of
        [] \<Rightarrow>
          (case db_insert attendanceData t tbl of
             (Inl e, tbl') \<Rightarrow> (Inl e, tbl')
           | (Inr newRecord, tbl') \<Rightarrow> (Inr (Some newRecord), tbl'))
      | r0 # rest \<Rightarrow>
          (let tbl1 = fold (\<lambda>r. db_delete (att_id r)) rest tbl;
               (updated, tbl2) = db_update (att_id r0) (status attendanceData) t tbl1
           in (Inr (case updated of [] \<Rightarrow> None | u # _ \<Rightarrow> Some u), tbl2)))"

section \<open>The in-memory attendance map (MemStorage)\<close>

text \<open>
  \<^verbatim>\<open>attendanceRecords\<close> is a JavaScript \<^verbatim>\<open>Map\<close> from id to record: an association
  list in insertion order, where \<^verbatim>\<open>set\<close> replaces the value of a present key in place
  and appends an absent one.
\<close>

record memStorage =
  attendanceRecords :: "(int \<times> attendance) list"
  attendanceIdCounter :: int

definition mem_markAttendance ::
  "insertAttendance \<Rightarrow> date \<Rightarrow> memStorage \<Rightarrow> attendance \<times> memStorage" where
  "mem_markAttendance attendanceData t m =
     (case find (samePair (lessonId attendanceData) (studentId attendanceData))
                (map snd (attendanceRecords m)) of
        Some existingAttendance \<Rightarrow>
          (let updatedAttendance =
                 existingAttendance\<lparr>status := status attendanceData, markedAt := Some t\<rparr>
           in (updatedAttendance,
               m\<lparr>attendanceRecords :=
                    AList.update (att_id existingAttendance) updatedAttendance
                      (attendanceRecords m)\<rparr>))
      | None \<Rightarrow>
          (let i = attendanceIdCounter m;
               a = \<lparr>lessonId = lessonId attendanceData, studentId = studentId attendanceData,
                    status = status attendanceData,
                    att_id = i, markedAt = Some t, att_createdAt = Some t\<rparr>
           in (a, m\<lparr>attendanceRecords := AList.update i a (attendanceRecords m),
                    attendanceIdCounter := i + 1\<rparr>)))"

section \<open>The mark-attendance route\<close>

record storage =
  lessonsTable :: "int \<rightharpoonup> lesson"
  attendanceTbl :: attendanceTable

definition getLesson :: "storage \<Rightarrow> int \<Rightarrow> lesson option" where
  "getLesson st i = lessonsTable st i"

text \<open>
  A request: the authenticated user of the session (if any), the body as
  \<^verbatim>\<open>insertAttendanceSchema.parse\<close> returns it (\<open>None\<close> when it throws a validation
  error), and whether the query string has \<^verbatim>\<open>force=true\<close>.
\<close>

record request =
  req_user :: "user option"
  req_body :: "insertAttendance option"
  forceAttendance :: bool

datatype payload =
    Message string
  | ValidationMessage
  | WindowDenial (message: string) (opensAt: date) (closesAt: date) (currentTime: date)
      (isInstantLessonField: "bool option")
  | AttendanceJson "attendance option"
  | Thrown db_error

datatype response = Response (code: nat) (json: payload)

text \<open>The student-only rejection of a lesson on another weekday.\<close>

definition futureLesson :: "int \<Rightarrow> date \<Rightarrow> user \<Rightarrow> lesson \<Rightarrow> bool" where
  "futureLesson tz now u l \<longleftrightarrow>
     dayOfWeek l \<noteq> getDay tz now \<and> role u = Student
     \<and> daysUntilNext tz now l \<noteq> 0 \<and> daysUntilNext tz now l > 0"

text \<open>The student-only window check.\<close>

definition windowClosed :: "int \<Rightarrow> date \<Rightarrow> bool \<Rightarrow> user \<Rightarrow> lesson \<Rightarrow> bool" where
  "windowClosed tz now force u l \<longleftrightarrow>
     role u = Student
     \<and> (now < preClassWindow tz now l \<or> now > lessonEndTime tz now l)
     \<and> truthy (isActive l) \<and> \<not> force"

text \<open>
  The handler of \<^verbatim>\<open>POST /api/attendance\<close> behind the \<^verbatim>\<open>isAuthenticated\<close> middleware.
  \<open>now\<close> is the clock reading of the handler, \<open>markedNow\<close> the later one of the storage
  layer. The checks are in the order of the source; every early return leaves the
  storage as it was.
\<close>

definition postAttendance ::
  "int \<Rightarrow> date \<Rightarrow> date \<Rightarrow> request \<Rightarrow> storage \<Rightarrow> response \<times> storage" where
  "postAttendance tz now markedNow req st =
     (case req_user req of
        None \<Rightarrow> (Response 401 (Message ''Unauthorized''), st)
      | Some u \<Rightarrow>
     (case req_body req of
        None \<Rightarrow> (Response 400 ValidationMessage, st)
      | Some attendanceData \<Rightarrow>
     (case getLesson st (lessonId attendanceData) of
        None \<Rightarrow> (Response 404 (Message ''Lesson not found''), st)
      | Some l \<Rightarrow>
          if futureLesson tz now u l
          then (Response 403 (Message ''Cannot mark attendance for future lessons''), st)
          else if windowClosed tz now (forceAttendance req) u l
          then (Response 403
                  (WindowDenial ''Attendance window is not open''
                     (preClassWindow tz now l) (lessonEndTime tz now l) now
                     (isInstantLesson now l)), st)
          else if role u = Student \<and> studentId attendanceData \<noteq> user_id u
          then (Response 403 (Message ''You can only mark your own attendance''), st)
          else if role u = Student \<and> user_classId u \<noteq> Some (classId l)
          then (Response 403 (Message ''You are not part of this class''), st)
          else if role u = Teacher \<and> teacherId l \<noteq> user_id u
          then (Response 403
                  (Message ''You can only mark attendance for your own lessons''), st)
          else
            (case markAttendance attendanceData markedNow (attendanceTbl st) of
               (Inl e, tbl') \<Rightarrow> (Response 500 (Thrown e), st\<lparr>attendanceTbl := tbl'\<rparr>)
             | (Inr a, tbl') \<Rightarrow>
                 (Response 201 (AttendanceJson a), st\<lparr>attendanceTbl := tbl'\<rparr>)))))"

definition isWindowDenial :: "response \<Rightarrow> bool" where
  "isWindowDenial r = (case json r of WindowDenial _ _ _ _ _ \<Rightarrow> True | _ \<Rightarrow> False)"

section \<open>The lesson status of the admin lessons page\<close>

datatype lessonStatus = NotStarted | InProgress | Completed

definition lessonStatusOf :: "int \<Rightarrow> int \<Rightarrow> lesson \<Rightarrow> lessonStatus" where
  "lessonStatusOf currentDay currentTimeMinutes l =
     (let endTimeMinutes = startTimeMinutes l + orDefault (durationMinutes l) 120
      in if dayOfWeek l = currentDay
         then (if currentTimeMinutes > endTimeMinutes then Completed
               else if currentTimeMinutes \<ge> startTimeMinutes l then InProgress
               else NotStarted)
         else if (currentDay > dayOfWeek l \<and> currentDay \<noteq> 0)
                 \<or> (currentDay = 0 \<and> dayOfWeek l \<noteq> 0)
         then Completed
         else NotStarted)"

text \<open>The status at an instant: the day and the minutes since midnight of the local clock.\<close>

definition lessonStatusAt :: "int \<Rightarrow> date \<Rightarrow> lesson \<Rightarrow> lessonStatus" where
  "lessonStatusAt tz now l =
     lessonStatusOf (getDay tz now) (getHours tz now * 60 + getMinutes tz now) l"

section \<open>Integrity of the attendance table\<close>

text \<open>
  The primary key: ids are pairwise different, and the sequence is ahead of every id.
\<close>

definition primaryKeyOk :: "attendanceTable \<Rightarrow> bool" where
  "primaryKeyOk tbl \<longleftrightarrow>
     distinct (map att_id (rows tbl)) \<and> (\<forall>r \<in> set (rows tbl). att_id r < nextId tbl)"

text \<open>The unique constraint \<^verbatim>\<open>lesson_student_idx\<close>.\<close>

definition uniqueIdxOk :: "attendanceTable \<Rightarrow> bool" where
  "uniqueIdxOk tbl \<longleftrightarrow> distinct (map (\<lambda>r. (lessonId r, studentId r)) (rows tbl))"

text \<open>A row that records the marking \<open>d\<close> made at \<open>t\<close>.\<close>

definition marked :: "insertAttendance \<Rightarrow> date \<Rightarrow> attendance \<Rightarrow> bool" where
  "marked d t r \<longleftrightarrow>
     lessonId r = lessonId d \<and> studentId r = studentId d \<and> status r = status d
     \<and> markedAt r = Some t"

section \<open>Integrity of the in-memory map\<close>

text \<open>
  What \<^verbatim>\<open>MemStorage\<close> keeps from its empty start: keys are pairwise different (it
  is a map), every record is stored under its own id, the counter is ahead of every key,
  and no two records are of the same lesson and student.
\<close>

definition memOk :: "memStorage \<Rightarrow> bool" where
  "memOk m \<longleftrightarrow>
     distinct (map fst (attendanceRecords m))
     \<and> (\<forall>p \<in> set (attendanceRecords m).
            att_id (snd p) = fst p \<and> fst p < attendanceIdCounter m)
     \<and> distinct (map (\<lambda>p. (lessonId (snd p), studentId (snd p))) (attendanceRecords m))"

text \<open>The records of a lesson and a student, in the order of the map.\<close>

definition mem_select :: "int \<Rightarrow> int \<Rightarrow> memStorage \<Rightarrow> attendance list" where
  "mem_select lid sid m = filter (samePair lid sid) (map snd (attendanceRecords m))"

section \<open>Two calls of markAttendance on one table\<close>

text \<open>
  \<^verbatim>\<open>DatabaseStorage.markAttendance\<close> awaits every statement, and opens no transaction;
  another call can run between two of its statements. A call in progress is at one of its
  statements: the select; a delete of the loop, with the first selected row and the rows
  still to delete; the update of the first selected row; the insert. Or it has returned
  or thrown.
\<close>

datatype pc =
    AtSelect
  | AtDelete attendance "attendance list"
  | AtUpdate attendance
  | AtInsert
  | Returned "attendance option"
  | Threw db_error

text \<open>One statement of a call, on the table as it is at that moment.\<close>

fun stepCall ::
  "insertAttendance \<Rightarrow> date \<Rightarrow> pc \<times> attendanceTable \<Rightarrow> pc \<times> attendanceTable" where
  "stepCall d t (AtSelect, tbl) =
     (case db_select (lessonId d) (studentId d) tbl of
        [] \<Rightarrow> (AtInsert, tbl)
      | r0 # rest \<Rightarrow> (if rest = [] then AtUpdate r0 else AtDelete r0 rest, tbl))"
| "stepCall d t (AtDelete r0 [], tbl) = (AtUpdate r0, tbl)"
| "stepCall d t (AtDelete r0 (x # xs), tbl) =
     (if xs = [] then AtUpdate r0 else AtDelete r0 xs, db_delete (att_id x) tbl)"
| "stepCall d t (AtUpdate r0, tbl) =
     (case db_update (att_id r0) (status d) t tbl of
        (updated, tbl') \<Rightarrow> (Returned (case updated of [] \<Rightarrow> None | u # _ \<Rightarrow> Some u), tbl'))"
| "stepCall d t (AtInsert, tbl) =
     (case db_insert d t tbl of
        (Inl e, tbl') \<Rightarrow> (Threw e, tbl')
      | (Inr newRecord, tbl') \<Rightarrow> (Returned (Some newRecord), tbl'))"
| "stepCall d t (Returned a, tbl) = (Returned a, tbl)"
| "stepCall d t (Threw e, tbl) = (Threw e, tbl)"

fun outcome :: "db_error + attendance option \<Rightarrow> pc" where
  "outcome (Inl e) = Threw e"
| "outcome (Inr a) = Returned a"

text \<open>
  Two calls on one table under a schedule: \<open>True\<close> lets the first call run its next
  statement, \<open>False\<close> the second.
\<close>

fun interleave ::
  "insertAttendance \<Rightarrow> date \<Rightarrow> insertAttendance \<Rightarrow> date \<Rightarrow> bool list
     \<Rightarrow> pc \<times> pc \<times> attendanceTable \<Rightarrow> pc \<times> pc \<times> attendanceTable" where
  "interleave d1 t1 d2 t2 [] c = c"
| "interleave d1 t1 d2 t2 (b # bs) (p1, p2, tbl) =
     (if b
      then (case stepCall d1 t1 (p1, tbl) of (p1', tbl') \<Rightarrow>
              interleave d1 t1 d2 t2 bs (p1', p2, tbl'))
      else (case stepCall d2 t2 (p2, tbl) of (p2', tbl') \<Rightarrow>
              interleave d1 t1 d2 t2 bs (p1, p2', tbl')))"

section \<open>A concrete scenario\<close>

text \<open>
  Monday 5 January 1970 in UTC, a lesson on Mondays at 09:00 for 60 minutes created a month
  before, a student of its class and the student's request.
\<close>

definition scenarioDay :: date where
  "scenarioDay = 4 * msPerDay"

definition scenarioLesson :: lesson where
  "scenarioLesson =
     \<lparr>lesson_id = 1, classId = 7, teacherId = 3, dayOfWeek = 1, startTimeMinutes = 540,
      durationMinutes = 60, attendanceWindowMinutes = 30, isActive = Some True,
      createdAt = Some (- (30 * msPerDay))\<rparr>"

definition scenarioStudent :: user where
  "scenarioStudent = \<lparr>user_id = 20, role = Student, user_classId = Some 7\<rparr>"

definition scenarioTeacher :: user where
  "scenarioTeacher = \<lparr>user_id = 3, role = Teacher, user_classId = None\<rparr>"

definition scenarioMark :: insertAttendance where
  "scenarioMark = \<lparr>lessonId = 1, studentId = 20, status = Present\<rparr>"

definition scenarioRequest :: "user \<Rightarrow> request" where
  "scenarioRequest u =
     \<lparr>req_user = Some u, req_body = Some scenarioMark, forceAttendance = False\<rparr>"

definition emptyTable :: attendanceTable where
  "emptyTable = \<lparr>rows = [], nextId = 1\<rparr>"

definition emptyMem :: memStorage where
  "emptyMem = \<lparr>attendanceRecords = [], attendanceIdCounter = 1\<rparr>"

definition scenarioStorage :: "lesson \<Rightarrow> storage" where
  "scenarioStorage l = \<lparr>lessonsTable = [1 \<mapsto> l], attendanceTbl = emptyTable\<rparr>"

section \<open>Facts about dates\<close>

lemma getDay_range: "0 \<le> getDay tz t \<and> getDay tz t < 7"
  by (simp add: getDay_def)

lemma smod_7_nonneg: "0 \<le> k \<Longrightarrow> k smod (7::int) = k mod 7"
  by (simp add: signed_modulo_int_def sgn_if)

lemma daysUntilNext_pos:
  assumes "0 \<le> dayOfWeek l" "dayOfWeek l \<le> 6" "dayOfWeek l \<noteq> getDay tz now"
  shows "0 < daysUntilNext tz now l"
proof -
  have g: "0 \<le> getDay tz now" "getDay tz now < 7"
    using getDay_range by auto
  have "daysUntilNext tz now l = (dayOfWeek l - getDay tz now + 7) mod 7"
    unfolding daysUntilNext_def using assms g by (intro smod_7_nonneg) linarith
  moreover have "(dayOfWeek l - getDay tz now + 7) mod 7 \<noteq> 0"
    using assms g by presburger
  moreover have "0 \<le> (dayOfWeek l - getDay tz now + 7) mod 7"
    by simp
  ultimately show ?thesis
    by linarith
qed

lemma localDay_setHours:
  assumes "0 \<le> h * 60 + m" "h * 60 + m < 1440"
  shows "localDay tz (setHours tz d h m) = localDay tz d"
proof -
  have "setHours tz d h m + tz = (h * 60 + m) * 60000 + localDay tz d * 86400000"
    by (simp add: setHours_def msPerDay_def msPerHour_def msPerMinute_def algebra_simps)
  moreover have "0 \<le> (h * 60 + m) * 60000" "(h * 60 + m) * 60000 < 86400000"
    using assms by auto
  ultimately show ?thesis
    by (simp add: localDay_def [of tz "setHours tz d h m"] msPerDay_def div_pos_pos_trivial)
qed

lemma getDay_setHours:
  assumes "0 \<le> h * 60 + m" "h * 60 + m < 1440"
  shows "getDay tz (setHours tz d h m) = getDay tz d"
  by (simp add: getDay_def localDay_setHours [OF assms])

lemma lessonDate_today:
  assumes "dayOfWeek l = getDay tz now" "0 \<le> startTimeMinutes l"
  shows "lessonDate tz now l
           = localDay tz now * msPerDay + startTimeMinutes l * msPerMinute - tz"
proof -
  have "startTimeMinutes l smod 60 = startTimeMinutes l mod 60"
    using assms(2) by (simp add: signed_modulo_int_def sgn_if)
  then have "lessonDate tz now l
               = setHours tz now (startTimeMinutes l div 60) (startTimeMinutes l mod 60)"
    using assms(1) by (simp add: lessonDate_def)
  also have "\<dots> = localDay tz now * msPerDay
        + (startTimeMinutes l div 60 * 3600000 + startTimeMinutes l mod 60 * 60000) - tz"
    by (simp add: setHours_def msPerHour_def msPerMinute_def)
  also have "startTimeMinutes l div 60 * 3600000 + startTimeMinutes l mod 60 * 60000
               = startTimeMinutes l * msPerMinute"
    unfolding msPerMinute_def by presburger
  finally show ?thesis .
qed

lemma localDay_subDays: "localDay tz (subDays t k) = localDay tz t - k"
proof -
  have "(t - k * 86400000 + tz) div 86400000 = (t + tz + (- k) * 86400000) div 86400000"
    by (simp add: algebra_simps)
  also have "\<dots> = (t + tz) div 86400000 + (- k)"
    by simp
  finally show ?thesis
    by (simp add: localDay_def subDays_def msPerDay_def)
qed

lemma back_to_weekday:
  fixes g d :: int
  assumes "0 \<le> g" "g < 7" "0 \<le> d" "d \<le> 6"
  shows "(g - (g - d + 7) mod 7) mod 7 = d"
proof (cases "d \<le> g")
  case True
  have "(g - d + 7) mod 7 = (g - d) mod 7"
    by simp
  also have "\<dots> = g - d"
    using assms True by (intro mod_pos_pos_trivial) linarith+
  finally have "(g - (g - d + 7) mod 7) mod 7 = d mod 7"
    by simp
  then show ?thesis
    using assms by simp
next
  case False
  have "(g - d + 7) mod 7 = g - d + 7"
    using assms False by (intro mod_pos_pos_trivial) linarith+
  then have "(g - (g - d + 7) mod 7) mod 7 = (d + (- 1) * 7) mod 7"
    by (simp add: algebra_simps)
  also have "\<dots> = d mod 7"
    by (rule mod_mult_self1)
  finally show ?thesis
    using assms by simp
qed

text \<open>
  For a weekday from 0 to 6 and a start time within the day, the occurrence resolved is on
  the lesson's weekday, today or on one of the six days before.
\<close>

lemma lessonDate_most_recent:
  assumes dow: "0 \<le> dayOfWeek l" "dayOfWeek l \<le> 6"
    and start: "0 \<le> startTimeMinutes l" "startTimeMinutes l < 1440"
  shows "getDay tz (lessonDate tz now l) = dayOfWeek l
       \<and> localDay tz (lessonDate tz now l) \<le> localDay tz now
       \<and> localDay tz now - localDay tz (lessonDate tz now l) < 7"
proof -
  define k where "k = (if dayOfWeek l \<noteq> getDay tz now
                        then (getDay tz now - dayOfWeek l + 7) smod 7 else 0)"
  have g: "0 \<le> getDay tz now" "getDay tz now < 7"
    using getDay_range by auto
  have k: "k = (getDay tz now - dayOfWeek l + 7) mod 7"
    using dow g by (auto simp: k_def smod_7_nonneg)
  have sm: "startTimeMinutes l smod 60 = startTimeMinutes l mod 60"
    using start(1) by (simp add: signed_modulo_int_def sgn_if)
  have hm: "0 \<le> startTimeMinutes l div 60 * 60 + startTimeMinutes l mod 60"
      "startTimeMinutes l div 60 * 60 + startTimeMinutes l mod 60 < 1440"
    using start by simp_all
  have ld: "lessonDate tz now l
              = setHours tz (subDays now k) (startTimeMinutes l div 60) (startTimeMinutes l mod 60)"
    by (simp add: lessonDate_def k_def sm subDays_def)
  have day: "localDay tz (lessonDate tz now l) = localDay tz now - k"
    unfolding ld by (simp add: localDay_setHours [OF hm] localDay_subDays)
  have "getDay tz (lessonDate tz now l) = (localDay tz now + 4 - k) mod 7"
    by (simp add: getDay_def day algebra_simps)
  also have "\<dots> = ((localDay tz now + 4) mod 7 - k) mod 7"
    by (simp add: mod_diff_left_eq)
  also have "\<dots> = (getDay tz now - (getDay tz now - dayOfWeek l + 7) mod 7) mod 7"
    unfolding k getDay_def ..
  also have "\<dots> = dayOfWeek l"
    using g dow by (rule back_to_weekday)
  finally have "getDay tz (lessonDate tz now l) = dayOfWeek l" .
  moreover have "0 \<le> k" "k < 7"
    unfolding k by simp_all
  ultimately show ?thesis
    using day by simp
qed

lemma not_instant_iff:
  "\<not> truthy (isInstantLesson now l) \<longleftrightarrow>
     (case createdAt l of None \<Rightarrow> True | Some c \<Rightarrow> 24 * 60 * 60 * 1000 \<le> now - c)"
  by (auto simp: isInstantLesson_def split: option.split)

section \<open>The statements on the attendance table\<close>

lemma fold_db_delete:
  "fold (\<lambda>r. db_delete (att_id r)) ds tbl
     = tbl\<lparr>rows := filter (\<lambda>r. att_id r \<notin> att_id ` set ds) (rows tbl)\<rparr>"
proof (induction ds arbitrary: tbl)
  case Nil
  then show ?case by simp
next
  case (Cons d ds)
  have "fold (\<lambda>r. db_delete (att_id r)) (d # ds) tbl
          = fold (\<lambda>r. db_delete (att_id r)) ds (db_delete (att_id d) tbl)"
    by simp
  also have "\<dots> = (db_delete (att_id d) tbl)
      \<lparr>rows := filter (\<lambda>r. att_id r \<notin> att_id ` set ds) (rows (db_delete (att_id d) tbl))\<rparr>"
    by (rule Cons.IH)
  also have "\<dots> = tbl\<lparr>rows := filter (\<lambda>r. att_id r \<notin> att_id ` set (d # ds)) (rows tbl)\<rparr>"
    by (simp add: db_delete_def conj_commute)
  finally show ?case .
qed

lemma filter_id_update:
  "filter (\<lambda>r. att_id r = i)
      (map (\<lambda>r. if att_id r = i then r\<lparr>status := s, markedAt := m\<rparr> else r) xs)
     = map (\<lambda>r. r\<lparr>status := s, markedAt := m\<rparr>) (filter (\<lambda>r. att_id r = i) xs)"
  by (induction xs) auto

lemma distinct_filter_id:
  assumes "distinct (map att_id xs)" "x \<in> set xs"
  shows "filter (\<lambda>r. att_id r = att_id x) xs = [x]"
  using assms
proof (induction xs)
  case Nil
  then show ?case by simp
next
  case (Cons y ys)
  show ?case
  proof (cases "x = y")
    case True
    have "att_id y \<notin> att_id ` set ys"
      using Cons.prems(1) by simp
    then have "\<forall>r \<in> set ys. att_id r \<noteq> att_id y"
      by (metis imageI)
    then have "filter (\<lambda>r. att_id r = att_id y) ys = []"
      by (simp add: filter_empty_conv)
    with True show ?thesis by simp
  next
    case False
    with Cons.prems have "x \<in> set ys" "att_id y \<noteq> att_id x" by auto
    with Cons show ?thesis by simp
  qed
qed

lemma insert_case:
  assumes pk: "primaryKeyOk tbl"
    and sel: "db_select (lessonId d) (studentId d) tbl = []"
  shows "markAttendance d t tbl =
           (Inr (Some \<lparr>lessonId = lessonId d, studentId = studentId d, status = status d,
                       att_id = nextId tbl, markedAt = Some t, att_createdAt = Some t\<rparr>),
            tbl\<lparr>nextId := nextId tbl + 1,
                rows := rows tbl @
                  [\<lparr>lessonId = lessonId d, studentId = studentId d, status = status d,
                    att_id = nextId tbl, markedAt = Some t, att_createdAt = Some t\<rparr>]\<rparr>)"
proof -
  have "nextId tbl \<notin> set (map att_id (rows tbl))"
    using pk by (auto simp: primaryKeyOk_def)
  then show ?thesis
    using sel by (simp add: markAttendance_def db_insert_def Let_def)
qed

lemma update_case:
  assumes pk: "primaryKeyOk tbl"
    and sel: "db_select (lessonId d) (studentId d) tbl = r0 # rest"
  shows "markAttendance d t tbl =
           (Inr (Some (r0\<lparr>status := status d, markedAt := Some t\<rparr>)),
            tbl\<lparr>rows := map (\<lambda>r. if att_id r = att_id r0
                                  then r\<lparr>status := status d, markedAt := Some t\<rparr> else r)
                         (filter (\<lambda>r. att_id r \<notin> att_id ` set rest) (rows tbl))\<rparr>)"
proof -
  let ?keep = "filter (\<lambda>r. att_id r \<notin> att_id ` set rest) (rows tbl)"
  let ?upd = "\<lambda>r. if att_id r = att_id r0 then r\<lparr>status := status d, markedAt := Some t\<rparr> else r"
  have dist: "distinct (map att_id (rows tbl))"
    using pk by (simp add: primaryKeyOk_def)
  have "distinct (map att_id (r0 # rest))"
    using dist sel [symmetric] by (simp add: db_select_def distinct_map_filter)
  then have r0_rest: "att_id r0 \<notin> att_id ` set rest" by simp
  have "r0 \<in> set (filter (samePair (lessonId d) (studentId d)) (rows tbl))"
    using sel by (simp add: db_select_def)
  then have r0_in: "r0 \<in> set (rows tbl)" by simp
  have r0_keep: "r0 \<in> set ?keep" using r0_in r0_rest by simp
  have "distinct (map att_id ?keep)" using dist by (simp add: distinct_map_filter)
  then have one: "filter (\<lambda>r. att_id r = att_id r0) ?keep = [r0]"
    using r0_keep by (rule distinct_filter_id)
  have "filter (\<lambda>r. att_id r = att_id r0) (map ?upd ?keep)
          = map (\<lambda>r. r\<lparr>status := status d, markedAt := Some t\<rparr>)
              (filter (\<lambda>r. att_id r = att_id r0) ?keep)"
    by (rule filter_id_update)
  also have "\<dots> = [r0\<lparr>status := status d, markedAt := Some t\<rparr>]"
    unfolding one by simp
  finally have upd: "filter (\<lambda>r. att_id r = att_id r0) (map ?upd ?keep)
                       = [r0\<lparr>status := status d, markedAt := Some t\<rparr>]" .
  show ?thesis
    using sel upd by (simp add: markAttendance_def fold_db_delete db_update_def Let_def)
qed


lemma map_att_id_update:
  "map att_id (map (\<lambda>r. if att_id r = i then r\<lparr>status := s, markedAt := m\<rparr> else r) xs)
     = map att_id xs"
  by (induction xs) auto

lemma filter_samePair_update:
  "filter (samePair lid sid)
      (map (\<lambda>r. if att_id r = i then r\<lparr>status := s, markedAt := m\<rparr> else r) xs)
     = map (\<lambda>r. if att_id r = i then r\<lparr>status := s, markedAt := m\<rparr> else r)
         (filter (samePair lid sid) xs)"
  by (induction xs) (auto simp: samePair_def)

lemma markAttendance_insert_ok:
  assumes pk: "primaryKeyOk tbl"
    and sel: "db_select (lessonId d) (studentId d) tbl = []"
  shows "\<exists>r tbl'. markAttendance d t tbl = (Inr (Some r), tbl') \<and> marked d t r
           \<and> db_select (lessonId d) (studentId d) tbl' = [r] \<and> primaryKeyOk tbl'
           \<and> length (rows tbl') = length (rows tbl) + 1"
proof -
  let ?r = "\<lparr>lessonId = lessonId d, studentId = studentId d, status = status d,
             att_id = nextId tbl, markedAt = Some t, att_createdAt = Some t\<rparr>"
  let ?tbl' = "tbl\<lparr>nextId := nextId tbl + 1, rows := rows tbl @ [?r]\<rparr>"
  have m: "markAttendance d t tbl = (Inr (Some ?r), ?tbl')"
    using pk sel by (rule insert_case)
  have fresh: "nextId tbl \<notin> att_id ` set (rows tbl)"
    using pk by (auto simp: primaryKeyOk_def)
  have "marked d t ?r"
    by (simp add: marked_def)
  moreover have "db_select (lessonId d) (studentId d) ?tbl' = [?r]"
    using sel by (simp add: db_select_def samePair_def)
  moreover have "primaryKeyOk ?tbl'"
    using pk fresh by (auto simp: primaryKeyOk_def)
  moreover have "length (rows ?tbl') = length (rows tbl) + 1"
    by simp
  ultimately show ?thesis
    using m by blast
qed

lemma markAttendance_update_ok:
  assumes pk: "primaryKeyOk tbl"
    and sel: "db_select (lessonId d) (studentId d) tbl = r0 # rest"
  shows "\<exists>r tbl'. markAttendance d t tbl = (Inr (Some r), tbl') \<and> marked d t r
           \<and> att_id r = att_id r0
           \<and> db_select (lessonId d) (studentId d) tbl' = [r] \<and> primaryKeyOk tbl'
           \<and> length (rows tbl') + length rest = length (rows tbl)
           \<and> nextId tbl' = nextId tbl"
proof -
  let ?keepP = "\<lambda>r. att_id r \<notin> att_id ` set rest"
  let ?upd = "\<lambda>r. if att_id r = att_id r0 then r\<lparr>status := status d, markedAt := Some t\<rparr> else r"
  let ?r = "r0\<lparr>status := status d, markedAt := Some t\<rparr>"
  let ?tbl' = "tbl\<lparr>rows := map ?upd (filter ?keepP (rows tbl))\<rparr>"
  have m: "markAttendance d t tbl = (Inr (Some ?r), ?tbl')"
    using pk sel by (rule update_case)
  have dist: "distinct (map att_id (rows tbl))"
    using pk by (simp add: primaryKeyOk_def)
  have sel': "filter (samePair (lessonId d) (studentId d)) (rows tbl) = r0 # rest"
    using sel by (simp add: db_select_def)
  have "distinct (map att_id (r0 # rest))"
    using dist sel' [symmetric] by (simp add: distinct_map_filter)
  then have r0_rest: "att_id r0 \<notin> att_id ` set rest" by simp
  have "r0 \<in> set (filter (samePair (lessonId d) (studentId d)) (rows tbl))"
    using sel' by simp
  then have r0_pair: "samePair (lessonId d) (studentId d) r0"
    by simp
  have mk: "marked d t ?r"
    using r0_pair by (simp add: marked_def samePair_def)
  have "filter (samePair (lessonId d) (studentId d)) (filter ?keepP (rows tbl))
          = filter ?keepP (filter (samePair (lessonId d) (studentId d)) (rows tbl))"
    by (simp add: conj_commute)
  also have "\<dots> = [r0]"
    unfolding sel' using r0_rest by (simp add: filter_empty_conv)
  finally have keep_sel:
    "filter (samePair (lessonId d) (studentId d)) (filter ?keepP (rows tbl)) = [r0]" .
  have "db_select (lessonId d) (studentId d) ?tbl'
          = filter (samePair (lessonId d) (studentId d)) (map ?upd (filter ?keepP (rows tbl)))"
    by (simp add: db_select_def del: filter_filter)
  also have "\<dots> = map ?upd (filter (samePair (lessonId d) (studentId d))
                                (filter ?keepP (rows tbl)))"
    by (rule filter_samePair_update)
  also have "\<dots> = [?r]"
    unfolding keep_sel by simp
  finally have s: "db_select (lessonId d) (studentId d) ?tbl' = [?r]" .
  have ids': "map att_id (rows ?tbl') = map att_id (filter ?keepP (rows tbl))"
    using map_att_id_update [where i = "att_id r0" and s = "status d" and m = "Some t"
        and xs = "filter ?keepP (rows tbl)"]
    by simp
  have "distinct (map att_id (rows ?tbl'))"
    unfolding ids' using dist by (rule distinct_map_filter)
  moreover have "\<forall>r \<in> set (rows ?tbl'). att_id r < nextId ?tbl'"
  proof
    fix r assume "r \<in> set (rows ?tbl')"
    then have "att_id r \<in> set (map att_id (rows ?tbl'))"
      by (simp del: map_map)
    then have "att_id r \<in> set (map att_id (filter ?keepP (rows tbl)))"
      unfolding ids' .
    then have "att_id r \<in> att_id ` set (rows tbl)"
      by auto
    then show "att_id r < nextId ?tbl'"
      using pk by (auto simp: primaryKeyOk_def)
  qed
  ultimately have pk': "primaryKeyOk ?tbl'"
    unfolding primaryKeyOk_def by blast
  have "set rest \<subseteq> set (rows tbl)"
    using sel' by (metis filter_is_subset set_subset_Cons subset_trans)
  have len: "length (filter ?keepP (rows tbl)) + length rest = length (rows tbl)"
  proof -
    have "length (filter ?keepP (rows tbl)) + length (filter (\<lambda>r. \<not> ?keepP r) (rows tbl))
            = length (rows tbl)"
      by (rule sum_length_filter_compl)
    moreover have "filter (\<lambda>r. \<not> ?keepP r) (rows tbl) = rest"
    proof -
      have "filter (\<lambda>r. \<not> ?keepP r) (rows tbl)
              = filter (\<lambda>r. \<not> ?keepP r) (filter (samePair (lessonId d) (studentId d)) (rows tbl))"
      proof (rule sym, subst filter_filter, rule filter_cong [OF refl])
        fix x assume x: "x \<in> set (rows tbl)"
        show "(samePair (lessonId d) (studentId d) x \<and> \<not> ?keepP x) = (\<not> ?keepP x)"
        proof (cases "?keepP x")
          case True
          then show ?thesis by simp
        next
          case False
          then obtain y where y: "y \<in> set rest" "att_id x = att_id y" by auto
          then have "y \<in> set (rows tbl)"
            using \<open>set rest \<subseteq> set (rows tbl)\<close> by blast
          then have "x = y"
            using dist x y(2) by (meson distinct_map inj_onD)
          then have "x \<in> set (filter (samePair (lessonId d) (studentId d)) (rows tbl))"
            using y(1) sel' by simp
          then show ?thesis using False by simp
        qed
      qed
      also have "\<dots> = filter (\<lambda>r. \<not> ?keepP r) rest"
        unfolding sel' using r0_rest by simp
      also have "\<dots> = rest"
        by (simp add: filter_id_conv)
      finally show ?thesis .
    qed
    ultimately show ?thesis by simp
  qed
  have "length (rows ?tbl') + length rest = length (rows tbl)"
    using len by simp
  moreover have "att_id ?r = att_id r0" "nextId ?tbl' = nextId tbl"
    by simp_all
  ultimately show ?thesis
    using m mk s pk' by blast
qed

lemma markAttendance_ok:
  assumes pk: "primaryKeyOk tbl"
  shows "\<exists>r tbl'. markAttendance d t tbl = (Inr (Some r), tbl') \<and> marked d t r
           \<and> db_select (lessonId d) (studentId d) tbl' = [r] \<and> primaryKeyOk tbl'"
proof (cases "db_select (lessonId d) (studentId d) tbl")
  case Nil
  from markAttendance_insert_ok [OF pk Nil, of t] show ?thesis by blast
next
  case (Cons r0 rest)
  from markAttendance_update_ok [OF pk Cons, of t] show ?thesis by blast
qed

section \<open>The in-memory map\<close>

lemma alist_update_absent:
  "k \<notin> fst ` set al \<Longrightarrow> AList.update k v al = al @ [(k, v)]"
  by (induction al) auto

lemma alist_update_present:
  "distinct (map fst al) \<Longrightarrow> k \<in> fst ` set al
     \<Longrightarrow> AList.update k v al = map (\<lambda>p. if fst p = k then (k, v) else p) al"
proof (induction al)
  case Nil
  then show ?case by simp
next
  case (Cons p ps)
  show ?case
  proof (cases "fst p = k")
    case True
    then have "k \<notin> fst ` set ps"
      using Cons.prems(1) by auto
    then have "map (\<lambda>p. if fst p = k then (k, v) else p) ps = ps"
      by (induction ps) auto
    with True show ?thesis by simp
  next
    case False
    then show ?thesis
      using Cons by auto
  qed
qed

lemma find_Some_first:
  "find P xs = Some x \<Longrightarrow> x \<in> set xs \<and> P x"
  by (induction xs) (auto split: if_splits)

lemma find_None_filter: "find P xs = None \<Longrightarrow> filter P xs = []"
  by (induction xs) (auto split: if_splits)

lemma distinct_filter_key:
  assumes "distinct (map f xs)" "x \<in> set xs"
  shows "filter (\<lambda>y. f y = f x) xs = [x]"
  using assms
proof (induction xs)
  case Nil
  then show ?case by simp
next
  case (Cons y ys)
  show ?case
  proof (cases "x = y")
    case True
    have "f y \<notin> f ` set ys"
      using Cons.prems(1) by simp
    then have "\<forall>r \<in> set ys. f r \<noteq> f y"
      by (metis imageI)
    then have "filter (\<lambda>r. f r = f y) ys = []"
      by (simp add: filter_empty_conv)
    with True show ?thesis by simp
  next
    case False
    with Cons.prems have "x \<in> set ys" "f y \<noteq> f x" by auto
    with Cons show ?thesis by simp
  qed
qed

lemma mem_insert_ok:
  assumes ok: "memOk m"
    and none: "find (samePair (lessonId d) (studentId d)) (map snd (attendanceRecords m)) = None"
  shows "\<exists>a m'. mem_markAttendance d t m = (a, m') \<and> marked d t a
           \<and> mem_select (lessonId d) (studentId d) m' = [a] \<and> memOk m'
           \<and> length (attendanceRecords m') = length (attendanceRecords m) + 1"
proof -
  let ?i = "attendanceIdCounter m"
  let ?a = "\<lparr>lessonId = lessonId d, studentId = studentId d, status = status d,
             att_id = ?i, markedAt = Some t, att_createdAt = Some t\<rparr>"
  let ?m' = "m\<lparr>attendanceRecords := attendanceRecords m @ [(?i, ?a)],
               attendanceIdCounter := ?i + 1\<rparr>"
  have fresh: "?i \<notin> fst ` set (attendanceRecords m)"
    using ok by (auto simp: memOk_def)
  have upd: "AList.update ?i ?a (attendanceRecords m) = attendanceRecords m @ [(?i, ?a)]"
    using fresh by (rule alist_update_absent)
  have m: "mem_markAttendance d t m = (?a, ?m')"
    using none by (simp add: mem_markAttendance_def upd Let_def)
  have empty: "filter (samePair (lessonId d) (studentId d)) (map snd (attendanceRecords m)) = []"
    using none by (rule find_None_filter)
  have sel: "mem_select (lessonId d) (studentId d) ?m' = [?a]"
    using empty by (simp add: mem_select_def samePair_def)
  have "(lessonId d, studentId d)
          \<notin> (\<lambda>p. (lessonId (snd p), studentId (snd p))) ` set (attendanceRecords m)"
  proof
    assume "(lessonId d, studentId d)
          \<in> (\<lambda>p. (lessonId (snd p), studentId (snd p))) ` set (attendanceRecords m)"
    then obtain k a where ka: "(k, a) \<in> set (attendanceRecords m)"
        "lessonId a = lessonId d" "studentId a = studentId d"
      by auto
    then have "a \<in> set (filter (samePair (lessonId d) (studentId d))
                           (map snd (attendanceRecords m)))"
      by (force simp: samePair_def)
    with empty show False by simp
  qed
  then have ok': "memOk ?m'"
    using ok fresh by (auto simp: memOk_def)
  have "marked d t ?a"
    by (simp add: marked_def)
  moreover have "length (attendanceRecords ?m') = length (attendanceRecords m) + 1"
    by simp
  ultimately show ?thesis
    using m sel ok' by blast
qed

lemma mem_update_ok:
  assumes ok: "memOk m"
    and some: "find (samePair (lessonId d) (studentId d)) (map snd (attendanceRecords m))
                 = Some e"
  shows "\<exists>a m'. mem_markAttendance d t m = (a, m') \<and> marked d t a \<and> att_id a = att_id e
           \<and> mem_select (lessonId d) (studentId d) m' = [a] \<and> memOk m'
           \<and> length (attendanceRecords m') = length (attendanceRecords m)
           \<and> attendanceIdCounter m' = attendanceIdCounter m"
proof -
  let ?recs = "attendanceRecords m"
  let ?e' = "e\<lparr>status := status d, markedAt := Some t\<rparr>"
  let ?f = "\<lambda>p. if fst p = att_id e then (att_id e, ?e') else p"
  let ?m' = "m\<lparr>attendanceRecords := map ?f ?recs\<rparr>"
  have e: "e \<in> set (map snd ?recs)" "samePair (lessonId d) (studentId d) e"
    using find_Some_first [OF some] by auto
  then obtain k where "(k, e) \<in> set ?recs"
    by auto
  then have ke: "(att_id e, e) \<in> set ?recs"
    using ok by (auto simp: memOk_def)
  have keys: "distinct (map fst ?recs)"
    using ok by (simp add: memOk_def)
  have "att_id e \<in> fst ` set ?recs"
    using ke by force
  then have upd: "AList.update (att_id e) ?e' ?recs = map ?f ?recs"
    using keys by (intro alist_update_present)
  have m: "mem_markAttendance d t m = (?e', ?m')"
    using some by (simp add: mem_markAttendance_def upd Let_def)
  have pairs: "distinct (map (\<lambda>p. (lessonId (snd p), studentId (snd p))) ?recs)"
    using ok by (simp add: memOk_def)
  have one: "filter (\<lambda>p. (lessonId (snd p), studentId (snd p))
                         = (lessonId (snd (att_id e, e)), studentId (snd (att_id e, e)))) ?recs
               = [(att_id e, e)]"
    using pairs ke by (rule distinct_filter_key)
  have only: "p = (att_id e, e)" if "p \<in> set ?recs" "fst p = att_id e" for p
    using that keys ke by (metis eq_key_imp_eq_value prod.collapse)
  have same: "samePair (lessonId d) (studentId d) (snd (?f p))
                = samePair (lessonId d) (studentId d) (snd p)"
    if "p \<in> set ?recs" for p
  proof (cases "fst p = att_id e")
    case True
    with that have "p = (att_id e, e)"
      by (rule only)
    then show ?thesis
      by (simp add: samePair_def)
  next
    case False
    then show ?thesis by simp
  qed
  have "filter (\<lambda>p. samePair (lessonId d) (studentId d) (snd p)) ?recs = [(att_id e, e)]"
    using one e(2) by (auto simp: samePair_def cong: filter_cong)
  moreover have "filter (\<lambda>p. samePair (lessonId d) (studentId d) (snd p)) (map ?f ?recs)
          = map ?f (filter (\<lambda>p. samePair (lessonId d) (studentId d) (snd p)) ?recs)"
    using same by (simp add: filter_map comp_def cong: filter_cong)
  ultimately have "filter (\<lambda>p. samePair (lessonId d) (studentId d) (snd p)) (map ?f ?recs)
                     = [(att_id e, ?e')]"
    by simp
  then have "map snd (filter (\<lambda>p. samePair (lessonId d) (studentId d) (snd p)) (map ?f ?recs))
               = [?e']"
    by simp
  then have sel: "mem_select (lessonId d) (studentId d) ?m' = [?e']"
    by (simp add: mem_select_def filter_map comp_def)
  have fst_f: "fst (?f p) = fst p" for p
    by simp
  have pair_f: "(lessonId (snd (?f p)), studentId (snd (?f p)))
                  = (lessonId (snd p), studentId (snd p))" if "p \<in> set ?recs" for p
  proof (cases "fst p = att_id e")
    case True
    with that have "p = (att_id e, e)"
      by (rule only)
    then show ?thesis
      by simp
  next
    case False
    then show ?thesis by simp
  qed
  have k': "map fst (map ?f ?recs) = map fst ?recs"
    by (simp add: comp_def)
  have p': "map (\<lambda>p. (lessonId (snd p), studentId (snd p))) (map ?f ?recs)
              = map (\<lambda>p. (lessonId (snd p), studentId (snd p))) ?recs"
    using pair_f by (simp add: comp_def)
  have recs': "attendanceRecords ?m' = map ?f ?recs"
      and ctr': "attendanceIdCounter ?m' = attendanceIdCounter m"
    by simp_all
  have d1: "distinct (map fst (map ?f ?recs))"
    unfolding k' by (rule keys)
  have d2: "distinct (map (\<lambda>p. (lessonId (snd p), studentId (snd p))) (map ?f ?recs))"
    unfolding p' by (rule pairs)
  have d3: "\<forall>p \<in> set (map ?f ?recs). att_id (snd p) = fst p \<and> fst p < attendanceIdCounter m"
    using ok ke by (auto simp: memOk_def)
  have ok': "memOk ?m'"
    unfolding memOk_def recs' ctr' using d1 d2 d3 by blast
  have "marked d t ?e'"
    using e(2) by (simp add: marked_def samePair_def)
  moreover have "att_id ?e' = att_id e"
      "length (attendanceRecords ?m') = length (attendanceRecords m)"
      "attendanceIdCounter ?m' = attendanceIdCounter m"
    by simp_all
  ultimately show ?thesis
    using m sel ok' by blast
qed

lemma filter_single_find: "filter P xs = [x] \<Longrightarrow> find P xs = Some x"
  by (induction xs) (auto split: if_splits)

lemma mem_markAttendance_ok:
  assumes ok: "memOk m"
  shows "\<exists>a m'. mem_markAttendance d t m = (a, m') \<and> marked d t a
           \<and> mem_select (lessonId d) (studentId d) m' = [a] \<and> memOk m'"
proof (cases "find (samePair (lessonId d) (studentId d)) (map snd (attendanceRecords m))")
  case None
  from mem_insert_ok [OF ok None, of t] show ?thesis by blast
next
  case (Some e)
  from mem_update_ok [OF ok Some, of t] show ?thesis by blast
qed

section \<open>Statements of concurrent calls\<close>

text \<open>
  A call that runs alone goes through its statements to the result of
  \<^verbatim>\<open>markAttendance\<close>.
\<close>

lemma run_deletes:
  "xs \<noteq> [] \<Longrightarrow>
   (stepCall d t ^^ length xs) (AtDelete r0 xs, tbl)
     = (AtUpdate r0, fold (\<lambda>r. db_delete (att_id r)) xs tbl)"
proof (induction xs arbitrary: tbl)
  case Nil
  then show ?case by simp
next
  case (Cons x xs)
  show ?case
  proof (cases "xs = []")
    case True
    then show ?thesis by simp
  next
    case False
    have "(stepCall d t ^^ length (x # xs)) (AtDelete r0 (x # xs), tbl)
            = (stepCall d t ^^ length xs) (stepCall d t (AtDelete r0 (x # xs), tbl))"
      by (simp add: funpow_swap1)
    also have "\<dots> = (stepCall d t ^^ length xs) (AtDelete r0 xs, db_delete (att_id x) tbl)"
      using False by simp
    also have "\<dots> = (AtUpdate r0, fold (\<lambda>r. db_delete (att_id r)) xs (db_delete (att_id x) tbl))"
      using False by (rule Cons.IH)
    finally show ?thesis by simp
  qed
qed

lemma stepCall_final:
  "(stepCall d t ^^ n) (outcome res, tbl) = (outcome res, tbl)"
  by (induction n) (cases res; simp)+

lemma markAttendance_steps:
  "(stepCall d t ^^ (2 + length (tl (db_select (lessonId d) (studentId d) tbl)))) (AtSelect, tbl)
     = (outcome (fst (markAttendance d t tbl)), snd (markAttendance d t tbl))"
proof (cases "db_select (lessonId d) (studentId d) tbl")
  case Nil
  then show ?thesis
    by (simp add: markAttendance_def numeral_2_eq_2 split: prod.split sum.split)
next
  case (Cons r0 rest)
  let ?tbl1 = "fold (\<lambda>r. db_delete (att_id r)) rest tbl"
  have m: "markAttendance d t tbl =
             (Inr (case fst (db_update (att_id r0) (status d) t ?tbl1) of
                     [] \<Rightarrow> None | u # _ \<Rightarrow> Some u),
              snd (db_update (att_id r0) (status d) t ?tbl1))"
    using Cons by (simp add: markAttendance_def Let_def split: prod.split)
  have upd: "stepCall d t (AtUpdate r0, ?tbl1)
               = (outcome (fst (markAttendance d t tbl)), snd (markAttendance d t tbl))"
    by (simp add: m split: prod.split)
  have "(stepCall d t ^^ (Suc (length rest))) (AtSelect, tbl) = (AtUpdate r0, ?tbl1)"
  proof (cases "rest = []")
    case True
    then show ?thesis using Cons by simp
  next
    case False
    have "(stepCall d t ^^ (Suc (length rest))) (AtSelect, tbl)
            = (stepCall d t ^^ length rest) (stepCall d t (AtSelect, tbl))"
      by (simp add: funpow_swap1)
    also have "\<dots> = (stepCall d t ^^ length rest) (AtDelete r0 rest, tbl)"
      using Cons False by simp
    also have "\<dots> = (AtUpdate r0, ?tbl1)"
      using False by (rule run_deletes)
    finally show ?thesis .
  qed
  then have "(stepCall d t ^^ (Suc (Suc (length rest)))) (AtSelect, tbl)
               = stepCall d t (AtUpdate r0, ?tbl1)"
    by simp
  then show ?thesis
    using Cons upd by (simp add: numeral_2_eq_2)
qed

lemma distinct_filter_le1:
  "distinct (map f xs) \<Longrightarrow> length (filter (\<lambda>x. f x = v) xs) \<le> 1"
proof (induction xs)
  case Nil
  then show ?case by simp
next
  case (Cons x xs)
  show ?case
  proof (cases "f x = v")
    case True
    then have "v \<notin> f ` set xs"
      using Cons.prems by auto
    then have "\<forall>y \<in> set xs. f y \<noteq> v"
      by (metis imageI)
    then have "filter (\<lambda>x. f x = v) xs = []"
      by (simp add: filter_empty_conv)
    with True show ?thesis by simp
  next
    case False
    with Cons show ?thesis by simp
  qed
qed

lemma uniqueIdx_select:
  assumes "uniqueIdxOk tbl"
  shows "length (db_select lid sid tbl) \<le> 1"
proof -
  have "db_select lid sid tbl
          = filter (\<lambda>r. (lessonId r, studentId r) = (lid, sid)) (rows tbl)"
    unfolding db_select_def by (rule filter_cong) (simp_all add: samePair_def)
  then show ?thesis
    using assms distinct_filter_le1 [of "\<lambda>r. (lessonId r, studentId r)" "rows tbl" "(lid, sid)"]
    by (simp add: uniqueIdxOk_def)
qed

lemma uniqueIdx_delete: "uniqueIdxOk tbl \<Longrightarrow> uniqueIdxOk (db_delete i tbl)"
  by (simp add: uniqueIdxOk_def db_delete_def distinct_map_filter)

lemma uniqueIdx_update: "uniqueIdxOk tbl \<Longrightarrow> uniqueIdxOk (snd (db_update i s t tbl))"
proof -
  have "map (\<lambda>r. (lessonId r, studentId r))
          (map (\<lambda>r. if att_id r = i then r\<lparr>status := s, markedAt := Some t\<rparr> else r) xs)
        = map (\<lambda>r. (lessonId r, studentId r)) xs" for xs :: "attendance list"
    by (induction xs) auto
  then show "uniqueIdxOk tbl \<Longrightarrow> uniqueIdxOk (snd (db_update i s t tbl))"
    by (simp add: uniqueIdxOk_def db_update_def Let_def del: map_map)
qed

lemma uniqueIdx_insert: "uniqueIdxOk tbl \<Longrightarrow> uniqueIdxOk (snd (db_insert d t tbl))"
proof -
  assume ok: "uniqueIdxOk tbl"
  have "(lessonId d, studentId d) \<notin> (\<lambda>r. (lessonId r, studentId r)) ` set (rows tbl)"
    if "db_select (lessonId d) (studentId d) tbl = []"
  proof
    assume "(lessonId d, studentId d) \<in> (\<lambda>r. (lessonId r, studentId r)) ` set (rows tbl)"
    then obtain r where "r \<in> set (rows tbl)" "samePair (lessonId d) (studentId d) r"
      by (auto simp: samePair_def)
    then have "r \<in> set (db_select (lessonId d) (studentId d) tbl)"
      by (simp add: db_select_def)
    with that show False by simp
  qed
  then show ?thesis
    using ok by (auto simp: uniqueIdxOk_def db_insert_def Let_def)
qed

lemma uniqueIdx_stepCall:
  "uniqueIdxOk tbl \<Longrightarrow> uniqueIdxOk (snd (stepCall d t (p, tbl)))"
proof (cases p)
  case AtSelect
  then show "uniqueIdxOk tbl \<Longrightarrow> uniqueIdxOk (snd (stepCall d t (p, tbl)))"
    by (simp split: list.split)
next
  case (AtDelete r0 xs)
  then show "uniqueIdxOk tbl \<Longrightarrow> uniqueIdxOk (snd (stepCall d t (p, tbl)))"
    by (cases xs) (simp_all add: uniqueIdx_delete)
next
  case (AtUpdate r0)
  assume "uniqueIdxOk tbl"
  then have "uniqueIdxOk (snd (db_update (att_id r0) (status d) t tbl))"
    by (rule uniqueIdx_update)
  with AtUpdate show "uniqueIdxOk (snd (stepCall d t (p, tbl)))"
    by (auto split: prod.split)
next
  case AtInsert
  assume "uniqueIdxOk tbl"
  then have "uniqueIdxOk (snd (db_insert d t tbl))"
    by (rule uniqueIdx_insert)
  with AtInsert show "uniqueIdxOk (snd (stepCall d t (p, tbl)))"
    by (auto split: prod.split sum.split)
next
  case (Returned a)
  then show "uniqueIdxOk tbl \<Longrightarrow> uniqueIdxOk (snd (stepCall d t (p, tbl)))" by simp
next
  case (Threw e)
  then show "uniqueIdxOk tbl \<Longrightarrow> uniqueIdxOk (snd (stepCall d t (p, tbl)))" by simp
qed

lemma uniqueIdx_interleave:
  "uniqueIdxOk tbl \<Longrightarrow> uniqueIdxOk (snd (snd (interleave d1 t1 d2 t2 sched (p1, p2, tbl))))"
proof (induction sched arbitrary: p1 p2 tbl)
  case Nil
  then show ?case by simp
next
  case (Cons b bs)
  show ?case
  proof (cases b)
    case True
    obtain p1' tbl' where s: "stepCall d1 t1 (p1, tbl) = (p1', tbl')"
      by (cases "stepCall d1 t1 (p1, tbl)")
    have "uniqueIdxOk tbl'"
      using uniqueIdx_stepCall [OF Cons.prems, of d1 t1 p1] s by simp
    then show ?thesis
      using True s Cons.IH by simp
  next
    case False
    obtain p2' tbl' where s: "stepCall d2 t2 (p2, tbl) = (p2', tbl')"
      by (cases "stepCall d2 t2 (p2, tbl)")
    have "uniqueIdxOk tbl'"
      using uniqueIdx_stepCall [OF Cons.prems, of d2 t2 p2] s by simp
    then show ?thesis
      using False s Cons.IH by simp
  qed
qed

section \<open>The route, case by case\<close>

lemma postAttendance_lesson:
  assumes "req_user req = Some u" "req_body req = Some d" "getLesson st (lessonId d) = Some l"
  shows "postAttendance tz now t req st =
     (if futureLesson tz now u l
      then (Response 403 (Message ''Cannot mark attendance for future lessons''), st)
      else if windowClosed tz now (forceAttendance req) u l
      then (Response 403
              (WindowDenial ''Attendance window is not open''
                 (preClassWindow tz now l) (lessonEndTime tz now l) now
                 (isInstantLesson now l)), st)
      else if role u = Student \<and> studentId d \<noteq> user_id u
      then (Response 403 (Message ''You can only mark your own attendance''), st)
      else if role u = Student \<and> user_classId u \<noteq> Some (classId l)
      then (Response 403 (Message ''You are not part of this class''), st)
      else if role u = Teacher \<and> teacherId l \<noteq> user_id u
      then (Response 403
              (Message ''You can only mark attendance for your own lessons''), st)
      else
        (case markAttendance d t (attendanceTbl st) of
           (Inl e, tbl') \<Rightarrow> (Response 500 (Thrown e), st\<lparr>attendanceTbl := tbl'\<rparr>)
         | (Inr a, tbl') \<Rightarrow>
             (Response 201 (AttendanceJson a), st\<lparr>attendanceTbl := tbl'\<rparr>)))"
  using assms by (simp add: postAttendance_def)

lemma postAttendance_marks:
  assumes req: "req_user req = Some u" "req_body req = Some d"
      "getLesson st (lessonId d) = Some l"
    and pass: "\<not> futureLesson tz now u l" "\<not> windowClosed tz now (forceAttendance req) u l"
      "role u = Student \<longrightarrow> studentId d = user_id u \<and> user_classId u = Some (classId l)"
      "role u = Teacher \<longrightarrow> teacherId l = user_id u"
    and pk: "primaryKeyOk (attendanceTbl st)"
  shows "\<exists>r tbl'. postAttendance tz now t req st
             = (Response 201 (AttendanceJson (Some r)), st\<lparr>attendanceTbl := tbl'\<rparr>)
           \<and> marked d t r \<and> db_select (lessonId d) (studentId d) tbl' = [r]"
proof -
  from markAttendance_ok [OF pk, of d t] obtain r tbl'
    where m: "markAttendance d t (attendanceTbl st) = (Inr (Some r), tbl')"
      and r: "marked d t r" "db_select (lessonId d) (studentId d) tbl' = [r]"
    by blast
  have "postAttendance tz now t req st
          = (Response 201 (AttendanceJson (Some r)), st\<lparr>attendanceTbl := tbl'\<rparr>)"
    using pass m by (simp add: postAttendance_lesson [OF req])
  with r show ?thesis by blast
qed

section \<open>Evaluating the scenario\<close>

lemmas scenario_defs =
  scenarioDay_def scenarioLesson_def scenarioStudent_def scenarioTeacher_def scenarioMark_def
  scenarioRequest_def emptyTable_def scenarioStorage_def

lemmas clock_defs =
  msPerDay_def msPerHour_def msPerMinute_def localDay_def getDay_def getHours_def
  getMinutes_def setHours_def addMinutes_def subDays_def

section \<open>The attendance window\<close>

text \<open>
  Claim C1. For a lesson that is not instant (no creation time, or one at least 24 hours
  before \<open>now\<close>) the window opens 10 minutes before the resolved occurrence start and
  closes \<^verbatim>\<open>durationMinutes\<close> after it, so it is \<^verbatim>\<open>durationMinutes + 10\<close> minutes long,
  whatever \<^verbatim>\<open>attendanceWindowMinutes\<close> is.
\<close>

theorem regular_window:
  assumes "\<not> truthy (isInstantLesson now l)"
  shows "preClassWindow tz now (l\<lparr>attendanceWindowMinutes := w\<rparr>)
           = lessonDate tz now l - 10 * msPerMinute
       \<and> lessonEndTime tz now (l\<lparr>attendanceWindowMinutes := w\<rparr>)
           = lessonDate tz now l + durationMinutes l * msPerMinute
       \<and> lessonEndTime tz now (l\<lparr>attendanceWindowMinutes := w\<rparr>)
           - preClassWindow tz now (l\<lparr>attendanceWindowMinutes := w\<rparr>)
           = (durationMinutes l + 10) * msPerMinute"
proof -
  let ?l = "l\<lparr>attendanceWindowMinutes := w\<rparr>"
  have inst: "\<not> truthy (isInstantLesson now ?l)"
    using assms by (simp add: isInstantLesson_def)
  have ld: "lessonDate tz now ?l = lessonDate tz now l"
    by (simp add: lessonDate_def)
  have s: "preClassWindow tz now ?l = lessonDate tz now l - 10 * msPerMinute"
    using inst ld by (simp add: preClassWindow_def addMinutes_def)
  have e: "lessonEndTime tz now ?l = lessonDate tz now l + durationMinutes l * msPerMinute"
    using inst ld by (simp add: lessonEndTime_def addMinutes_def)
  show ?thesis
    unfolding s e by (simp add: algebra_simps)
qed


theorem regular_window_witness:
  "\<not> truthy (isInstantLesson (scenarioDay + 555 * msPerMinute) scenarioLesson)
   \<and> preClassWindow 0 (scenarioDay + 555 * msPerMinute)
        (scenarioLesson\<lparr>attendanceWindowMinutes := 5\<rparr>) = scenarioDay + 530 * msPerMinute
   \<and> lessonEndTime 0 (scenarioDay + 555 * msPerMinute)
        (scenarioLesson\<lparr>attendanceWindowMinutes := 5\<rparr>) = scenarioDay + 600 * msPerMinute"
proof -
  have h: "\<not> truthy (isInstantLesson (scenarioDay + 555 * msPerMinute) scenarioLesson)"
    by (simp add: isInstantLesson_def scenarioLesson_def scenarioDay_def msPerDay_def
        msPerMinute_def)
  have ld: "lessonDate 0 (scenarioDay + 555 * msPerMinute) scenarioLesson
              = scenarioDay + 540 * msPerMinute"
    by (simp add: lessonDate_def getDay_def localDay_def setHours_def subDays_def
        scenarioLesson_def scenarioDay_def msPerDay_def msPerMinute_def msPerHour_def
        signed_modulo_int_def)
  have d: "durationMinutes scenarioLesson = 60"
    by (simp add: scenarioLesson_def)
  show ?thesis
    using h regular_window [OF h, of 0 5] unfolding ld d by (simp add: msPerMinute_def)
qed

text \<open>
  Claim C2, as the code has it. A lesson created less than 24 hours before \<open>now\<close> is
  instant: its window opens at \<^verbatim>\<open>createdAt\<close> and closes \<^verbatim>\<open>attendanceWindowMinutes\<close>
  later, where the handler takes 30 minutes for a value of 0. So the window is
  \<^verbatim>\<open>attendanceWindowMinutes\<close> long whenever that value is not 0, whatever the weekday, the
  start time and the duration of the lesson are.
\<close>

theorem instant_window:
  assumes "createdAt l = Some c" "now - c < 24 * 60 * 60 * 1000"
  shows "truthy (isInstantLesson now l)
       \<and> preClassWindow tz now (l\<lparr>dayOfWeek := dw, startTimeMinutes := s, durationMinutes := m\<rparr>)
           = c
       \<and> lessonEndTime tz now (l\<lparr>dayOfWeek := dw, startTimeMinutes := s, durationMinutes := m\<rparr>)
           = c + (if attendanceWindowMinutes l = 0 then 30 else attendanceWindowMinutes l)
                 * msPerMinute
       \<and> (attendanceWindowMinutes l \<noteq> 0 \<longrightarrow>
            lessonEndTime tz now
                (l\<lparr>dayOfWeek := dw, startTimeMinutes := s, durationMinutes := m\<rparr>)
              - preClassWindow tz now
                  (l\<lparr>dayOfWeek := dw, startTimeMinutes := s, durationMinutes := m\<rparr>)
              = attendanceWindowMinutes l * msPerMinute)"
  using assms
  by (simp add: isInstantLesson_def preClassWindow_def lessonEndTime_def addMinutes_def
      orDefault_def)

theorem instant_window_witness:
  "truthy (isInstantLesson (scenarioDay + 555 * msPerMinute)
      (scenarioLesson\<lparr>createdAt := Some (scenarioDay + 550 * msPerMinute)\<rparr>))
   \<and> preClassWindow 0 (scenarioDay + 555 * msPerMinute)
        (scenarioLesson\<lparr>createdAt := Some (scenarioDay + 550 * msPerMinute)\<rparr>)
       = scenarioDay + 550 * msPerMinute
   \<and> lessonEndTime 0 (scenarioDay + 555 * msPerMinute)
        (scenarioLesson\<lparr>createdAt := Some (scenarioDay + 550 * msPerMinute)\<rparr>)
       = scenarioDay + 580 * msPerMinute"
  using instant_window [where l = "scenarioLesson\<lparr>createdAt := Some (scenarioDay + 550 * msPerMinute)\<rparr>"
      and c = "scenarioDay + 550 * msPerMinute" and now = "scenarioDay + 555 * msPerMinute"
      and tz = 0 and dw = 1 and s = 540 and m = 60]
  by (simp add: scenario_defs clock_defs)

text \<open>
  The claim as stated fails for \<^verbatim>\<open>attendanceWindowMinutes = 0\<close>: the window of such an
  instant lesson is 30 minutes long, not 0.
\<close>

theorem instant_window_counterexample:
  "truthy (isInstantLesson (scenarioDay + 555 * msPerMinute)
      (scenarioLesson\<lparr>attendanceWindowMinutes := 0,
                       createdAt := Some (scenarioDay + 550 * msPerMinute)\<rparr>))
   \<and> lessonEndTime 0 (scenarioDay + 555 * msPerMinute)
        (scenarioLesson\<lparr>attendanceWindowMinutes := 0,
                         createdAt := Some (scenarioDay + 550 * msPerMinute)\<rparr>)
     - preClassWindow 0 (scenarioDay + 555 * msPerMinute)
        (scenarioLesson\<lparr>attendanceWindowMinutes := 0,
                         createdAt := Some (scenarioDay + 550 * msPerMinute)\<rparr>)
     \<noteq> attendanceWindowMinutes
         (scenarioLesson\<lparr>attendanceWindowMinutes := 0,
                          createdAt := Some (scenarioDay + 550 * msPerMinute)\<rparr>) * msPerMinute"
  by (simp add: isInstantLesson_def lessonEndTime_def preClassWindow_def orDefault_def
      scenario_defs clock_defs)

section \<open>Students and the window\<close>

text \<open>
  Claim C3, as the code has it. For a lesson that is not active, a student is never
  answered with the window error, whatever \<open>now\<close> and the force flag are; and when the
  lesson's weekday is today's, a student marking their own attendance in their own class
  is permitted at any time of the day.
\<close>

theorem inactive_no_window:
  assumes "req_user req = Some u" "req_body req = Some d"
    and "getLesson st (lessonId d) = Some l"
    and "role u = Student" "\<not> truthy (isActive l)"
  shows "\<not> isWindowDenial (fst (postAttendance tz now t req st))
       \<and> (dayOfWeek l = getDay tz now \<and> studentId d = user_id u
            \<and> user_classId u = Some (classId l) \<and> primaryKeyOk (attendanceTbl st)
          \<longrightarrow> (\<exists>r tbl'. postAttendance tz now t req st
                  = (Response 201 (AttendanceJson (Some r)), st\<lparr>attendanceTbl := tbl'\<rparr>)
                \<and> marked d t r))"
proof -
  have open_: "\<not> windowClosed tz now (forceAttendance req) u l"
    using assms(5) by (simp add: windowClosed_def)
  have "\<not> isWindowDenial (fst (postAttendance tz now t req st))"
    using open_
    by (simp add: postAttendance_lesson [OF assms(1-3)] isWindowDenial_def
        split: prod.split sum.split)
  moreover have "\<exists>r tbl'. postAttendance tz now t req st
                  = (Response 201 (AttendanceJson (Some r)), st\<lparr>attendanceTbl := tbl'\<rparr>)
                \<and> marked d t r"
    if h: "dayOfWeek l = getDay tz now" "studentId d = user_id u"
      "user_classId u = Some (classId l)" "primaryKeyOk (attendanceTbl st)"
  proof -
    have nf: "\<not> futureLesson tz now u l"
      using h(1) by (simp add: futureLesson_def)
    have stu: "role u = Student \<longrightarrow> studentId d = user_id u \<and> user_classId u = Some (classId l)"
      using h by simp
    have tch: "role u = Teacher \<longrightarrow> teacherId l = user_id u"
      using assms(4) by simp
    from postAttendance_marks [OF assms(1-3) nf open_ stu tch h(4), of t] show ?thesis
      by blast
  qed
  ultimately show ?thesis
    by blast
qed

theorem inactive_no_window_witness:
  "\<not> truthy (isActive (scenarioLesson\<lparr>isActive := Some False\<rparr>))
   \<and> lessonEndTime 0 (scenarioDay + 1380 * msPerMinute) (scenarioLesson\<lparr>isActive := Some False\<rparr>)
       < scenarioDay + 1380 * msPerMinute
   \<and> \<not> isWindowDenial (fst (postAttendance 0 (scenarioDay + 1380 * msPerMinute)
          (scenarioDay + 1381 * msPerMinute) (scenarioRequest scenarioStudent)
          (scenarioStorage (scenarioLesson\<lparr>isActive := Some False\<rparr>))))
   \<and> (\<exists>r tbl'. postAttendance 0 (scenarioDay + 1380 * msPerMinute)
          (scenarioDay + 1381 * msPerMinute) (scenarioRequest scenarioStudent)
          (scenarioStorage (scenarioLesson\<lparr>isActive := Some False\<rparr>))
         = (Response 201 (AttendanceJson (Some r)),
            (scenarioStorage (scenarioLesson\<lparr>isActive := Some False\<rparr>))\<lparr>attendanceTbl := tbl'\<rparr>)
       \<and> marked scenarioMark (scenarioDay + 1381 * msPerMinute) r)"
proof -
  have out: "lessonEndTime 0 (scenarioDay + 1380 * msPerMinute)
               (scenarioLesson\<lparr>isActive := Some False\<rparr>)
               < scenarioDay + 1380 * msPerMinute"
    by (simp add: lessonEndTime_def isInstantLesson_def lessonDate_def scenario_defs clock_defs
        signed_modulo_int_def)
  show ?thesis
    using out inactive_no_window [of "scenarioRequest scenarioStudent" scenarioStudent
      scenarioMark "scenarioStorage (scenarioLesson\<lparr>isActive := Some False\<rparr>)"
      "scenarioLesson\<lparr>isActive := Some False\<rparr>" 0 "scenarioDay + 1380 * msPerMinute"
      "scenarioDay + 1381 * msPerMinute"]
    by (simp add: scenario_defs clock_defs getLesson_def primaryKeyOk_def)
qed

text \<open>
  The claim as stated fails on another weekday: the same student and the same inactive
  lesson, on a Monday for a lesson held on Tuesdays, gets the future-lesson rejection.
\<close>

theorem inactive_future_counterexample:
  "\<not> truthy (isActive (scenarioLesson\<lparr>dayOfWeek := 2, isActive := Some False\<rparr>))
   \<and> postAttendance 0 (scenarioDay + 555 * msPerMinute) (scenarioDay + 556 * msPerMinute)
        (scenarioRequest scenarioStudent)
        (scenarioStorage (scenarioLesson\<lparr>dayOfWeek := 2, isActive := Some False\<rparr>))
       = (Response 403 (Message ''Cannot mark attendance for future lessons''),
          scenarioStorage (scenarioLesson\<lparr>dayOfWeek := 2, isActive := Some False\<rparr>))"
  by (simp add: postAttendance_def futureLesson_def daysUntilNext_def scenario_defs clock_defs
      getLesson_def signed_modulo_int_def)

text \<open>
  Claim C4. A regular active lesson held today at 09:00 for 60 minutes, and a student
  marking their own attendance in their own class without the force flag: at 09:15 the
  attendance is marked; at 10:30 the answer is the window error with its five fields,
  \<^verbatim>\<open>opensAt\<close> today 08:50 and \<^verbatim>\<open>closesAt\<close> today 10:00.
\<close>

theorem scenario_A_B:
  assumes lesson: "dayOfWeek l = getDay tz today" "startTimeMinutes l = 540"
      "durationMinutes l = 60" "attendanceWindowMinutes l = 30" "isActive l = Some True"
    and regular: "\<not> truthy (isInstantLesson (setHours tz today 9 15) l)"
      "\<not> truthy (isInstantLesson (setHours tz today 10 30) l)"
    and req: "req_user req = Some u" "req_body req = Some d"
      "getLesson st (lessonId d) = Some l" "\<not> forceAttendance req"
    and own: "role u = Student" "studentId d = user_id u" "user_classId u = Some (classId l)"
    and pk: "primaryKeyOk (attendanceTbl st)"
  shows "(\<exists>r tbl'. postAttendance tz (setHours tz today 9 15) t req st
             = (Response 201 (AttendanceJson (Some r)), st\<lparr>attendanceTbl := tbl'\<rparr>)
           \<and> marked d t r)
       \<and> postAttendance tz (setHours tz today 10 30) t req st
           = (Response 403
                (WindowDenial ''Attendance window is not open''
                   (setHours tz today 8 50) (setHours tz today 10 0)
                   (setHours tz today 10 30)
                   (isInstantLesson (setHours tz today 10 30) l)), st)"
proof -
  let ?A = "setHours tz today 9 15" and ?B = "setHours tz today 10 30"
  have dayA: "localDay tz ?A = localDay tz today" and dayB: "localDay tz ?B = localDay tz today"
    by (simp_all add: localDay_setHours)
  have dowA: "dayOfWeek l = getDay tz ?A" and dowB: "dayOfWeek l = getDay tz ?B"
    using lesson(1) by (simp_all add: getDay_setHours)
  have v: "setHours tz today 8 50 = setHours tz today 9 0 - 10 * msPerMinute"
      "setHours tz today 10 0 = setHours tz today 9 0 + 60 * msPerMinute"
      "?A = setHours tz today 9 0 + 15 * msPerMinute"
      "?B = setHours tz today 9 0 + 90 * msPerMinute"
    by (simp_all add: setHours_def msPerHour_def msPerMinute_def)
  have nine: "localDay tz today * msPerDay + 540 * msPerMinute - tz = setHours tz today 9 0"
    by (simp add: setHours_def msPerHour_def msPerMinute_def)
  have "lessonDate tz ?A l = localDay tz ?A * msPerDay + 540 * msPerMinute - tz"
    using lessonDate_today [OF dowA] lesson(2) by simp
  then have ldA: "lessonDate tz ?A l = setHours tz today 9 0"
    unfolding dayA nine .
  have "lessonDate tz ?B l = localDay tz ?B * msPerDay + 540 * msPerMinute - tz"
    using lessonDate_today [OF dowB] lesson(2) by simp
  then have ldB: "lessonDate tz ?B l = setHours tz today 9 0"
    unfolding dayB nine .
  have openA: "preClassWindow tz ?A l = setHours tz today 8 50"
    using regular(1) unfolding v(1) by (simp add: preClassWindow_def ldA addMinutes_def)
  have closeA: "lessonEndTime tz ?A l = setHours tz today 10 0"
    using regular(1) lesson(3) unfolding v(2) by (simp add: lessonEndTime_def ldA addMinutes_def)
  have openB: "preClassWindow tz ?B l = setHours tz today 8 50"
    using regular(2) unfolding v(1) by (simp add: preClassWindow_def ldB addMinutes_def)
  have closeB: "lessonEndTime tz ?B l = setHours tz today 10 0"
    using regular(2) lesson(3) unfolding v(2) by (simp add: lessonEndTime_def ldB addMinutes_def)
  have insideA: "\<not> windowClosed tz ?A (forceAttendance req) u l"
    unfolding windowClosed_def openA closeA by (simp add: v msPerMinute_def)
  have outsideB: "windowClosed tz ?B (forceAttendance req) u l"
    using own(1) lesson(5) req(4)
    unfolding windowClosed_def openB closeB by (simp add: v msPerMinute_def)
  have nofutA: "\<not> futureLesson tz ?A u l" and nofutB: "\<not> futureLesson tz ?B u l"
    using dowA dowB by (simp_all add: futureLesson_def)
  have stu: "role u = Student \<longrightarrow> studentId d = user_id u \<and> user_classId u = Some (classId l)"
    using own by simp
  have tch: "role u = Teacher \<longrightarrow> teacherId l = user_id u"
    using own(1) by simp
  have A: "\<exists>r tbl'. postAttendance tz ?A t req st
             = (Response 201 (AttendanceJson (Some r)), st\<lparr>attendanceTbl := tbl'\<rparr>)
           \<and> marked d t r"
    using postAttendance_marks [OF req(1-3) nofutA insideA stu tch pk, of t] by blast
  have B: "postAttendance tz ?B t req st
           = (Response 403
                (WindowDenial ''Attendance window is not open''
                   (setHours tz today 8 50) (setHours tz today 10 0) ?B
                   (isInstantLesson ?B l)), st)"
    using nofutB outsideB by (simp add: postAttendance_lesson [OF req(1-3)] openB closeB)
  from A B show ?thesis by blast
qed

theorem scenario_A_B_witness:
  "(\<exists>r tbl'. postAttendance 0 (setHours 0 scenarioDay 9 15) (scenarioDay + 556 * msPerMinute)
               (scenarioRequest scenarioStudent) (scenarioStorage scenarioLesson)
       = (Response 201 (AttendanceJson (Some r)),
          (scenarioStorage scenarioLesson)\<lparr>attendanceTbl := tbl'\<rparr>)
     \<and> marked scenarioMark (scenarioDay + 556 * msPerMinute) r)
   \<and> postAttendance 0 (setHours 0 scenarioDay 10 30) (scenarioDay + 556 * msPerMinute)
        (scenarioRequest scenarioStudent) (scenarioStorage scenarioLesson)
       = (Response 403
           (WindowDenial ''Attendance window is not open''
              (setHours 0 scenarioDay 8 50) (setHours 0 scenarioDay 10 0)
              (setHours 0 scenarioDay 10 30)
              (isInstantLesson (setHours 0 scenarioDay 10 30) scenarioLesson)),
          scenarioStorage scenarioLesson)"
  by (rule scenario_A_B [where u = scenarioStudent])
    (simp_all add: scenario_defs clock_defs getLesson_def primaryKeyOk_def isInstantLesson_def)

text \<open>
  Claim C5. A student's request for a lesson whose weekday (0 to 6) is not today's is
  rejected with "Cannot mark attendance for future lessons", and the storage is left as
  it was.
\<close>

theorem future_lesson_rejected:
  assumes "req_user req = Some u" "role u = Student" "req_body req = Some d"
    and "getLesson st (lessonId d) = Some l"
    and "0 \<le> dayOfWeek l" "dayOfWeek l \<le> 6" "dayOfWeek l \<noteq> getDay tz now"
  shows "postAttendance tz now t req st
           = (Response 403 (Message ''Cannot mark attendance for future lessons''), st)"
proof -
  have "0 < daysUntilNext tz now l"
    using assms(5-7) by (rule daysUntilNext_pos)
  then have "futureLesson tz now u l"
    using assms(2,7) by (simp add: futureLesson_def)
  then show ?thesis
    using assms(1,3,4) by (simp add: postAttendance_lesson)
qed

theorem future_lesson_rejected_witness:
  "getDay 0 (scenarioDay + 555 * msPerMinute) = 1
   \<and> postAttendance 0 (scenarioDay + 555 * msPerMinute) (scenarioDay + 556 * msPerMinute)
        (scenarioRequest scenarioStudent) (scenarioStorage (scenarioLesson\<lparr>dayOfWeek := 2\<rparr>))
       = (Response 403 (Message ''Cannot mark attendance for future lessons''),
          scenarioStorage (scenarioLesson\<lparr>dayOfWeek := 2\<rparr>))"
  using future_lesson_rejected [of "scenarioRequest scenarioStudent" scenarioStudent
      scenarioMark "scenarioStorage (scenarioLesson\<lparr>dayOfWeek := 2\<rparr>)"
      "scenarioLesson\<lparr>dayOfWeek := 2\<rparr>" 0 "scenarioDay + 555 * msPerMinute"
      "scenarioDay + 556 * msPerMinute"]
  by (simp add: scenario_defs clock_defs getLesson_def)

section \<open>Teachers and administrators\<close>

text \<open>
  Claim C6. For an administrator, or a teacher on a lesson of their own, the window never
  blocks: whatever \<open>now\<close> and the force flag are, the attendance is marked and the answer
  is 201 with the marked row.
\<close>

theorem teacher_admin_override:
  assumes "req_user req = Some u" "req_body req = Some d"
    and "getLesson st (lessonId d) = Some l"
    and "role u = Admin \<or> (role u = Teacher \<and> teacherId l = user_id u)"
    and "primaryKeyOk (attendanceTbl st)"
  shows "\<exists>r tbl'. postAttendance tz now t req st
             = (Response 201 (AttendanceJson (Some r)), st\<lparr>attendanceTbl := tbl'\<rparr>)
           \<and> marked d t r \<and> db_select (lessonId d) (studentId d) tbl' = [r]"
proof (rule postAttendance_marks [OF assms(1-3)])
  show "\<not> futureLesson tz now u l"
    using assms(4) by (auto simp: futureLesson_def)
  show "\<not> windowClosed tz now (forceAttendance req) u l"
    using assms(4) by (auto simp: windowClosed_def)
  show "role u = Student \<longrightarrow> studentId d = user_id u \<and> user_classId u = Some (classId l)"
    using assms(4) by auto
  show "role u = Teacher \<longrightarrow> teacherId l = user_id u"
    using assms(4) by auto
  show "primaryKeyOk (attendanceTbl st)"
    by (rule assms(5))
qed

theorem teacher_admin_override_witness:
  "lessonEndTime 0 (scenarioDay + 630 * msPerMinute) scenarioLesson
     < scenarioDay + 630 * msPerMinute
   \<and> \<not> forceAttendance (scenarioRequest scenarioTeacher)
   \<and> (\<exists>r tbl'. postAttendance 0 (scenarioDay + 630 * msPerMinute)
                  (scenarioDay + 631 * msPerMinute)
                  (scenarioRequest scenarioTeacher) (scenarioStorage scenarioLesson)
         = (Response 201 (AttendanceJson (Some r)),
            (scenarioStorage scenarioLesson)\<lparr>attendanceTbl := tbl'\<rparr>)
       \<and> marked scenarioMark (scenarioDay + 631 * msPerMinute) r
       \<and> db_select (lessonId scenarioMark) (studentId scenarioMark) tbl' = [r])"
proof -
  have out: "lessonEndTime 0 (scenarioDay + 630 * msPerMinute) scenarioLesson
               < scenarioDay + 630 * msPerMinute"
    by (simp add: lessonEndTime_def isInstantLesson_def lessonDate_def scenario_defs clock_defs
        signed_modulo_int_def)
  have "\<exists>r tbl'. postAttendance 0 (scenarioDay + 630 * msPerMinute)
                  (scenarioDay + 631 * msPerMinute)
                  (scenarioRequest scenarioTeacher) (scenarioStorage scenarioLesson)
         = (Response 201 (AttendanceJson (Some r)),
            (scenarioStorage scenarioLesson)\<lparr>attendanceTbl := tbl'\<rparr>)
       \<and> marked scenarioMark (scenarioDay + 631 * msPerMinute) r
       \<and> db_select (lessonId scenarioMark) (studentId scenarioMark) tbl' = [r]"
    by (rule teacher_admin_override [where u = scenarioTeacher and l = scenarioLesson])
      (simp_all add: scenario_defs getLesson_def primaryKeyOk_def)
  with out show ?thesis
    by (simp add: scenarioRequest_def)
qed

section \<open>Marking twice\<close>

text \<open>
  Claim C7. Two calls of \<^verbatim>\<open>markAttendance\<close> with the same lesson, student and status,
  one after the other: both return, and after the second there is exactly one row of that
  lesson and student; it has the given status and the time of the second call as
  \<^verbatim>\<open>markedAt\<close>, and it is the row the first call returned (the second call updates, the
  number of rows stays). This holds for the database table with its primary key intact and
  for the in-memory map.
\<close>

theorem mark_twice_one_row:
  assumes pk: "primaryKeyOk tbl" and mem: "memOk m"
  shows "(\<exists>r1 tbl1 r2 tbl2.
             markAttendance d t1 tbl = (Inr (Some r1), tbl1)
           \<and> markAttendance d t2 tbl1 = (Inr (Some r2), tbl2)
           \<and> db_select (lessonId d) (studentId d) tbl2 = [r2]
           \<and> status r2 = status d \<and> markedAt r2 = Some t2
           \<and> att_id r2 = att_id r1 \<and> length (rows tbl2) = length (rows tbl1))
       \<and> (\<exists>a1 m1 a2 m2.
             mem_markAttendance d t1 m = (a1, m1)
           \<and> mem_markAttendance d t2 m1 = (a2, m2)
           \<and> mem_select (lessonId d) (studentId d) m2 = [a2]
           \<and> status a2 = status d \<and> markedAt a2 = Some t2
           \<and> att_id a2 = att_id a1
           \<and> length (attendanceRecords m2) = length (attendanceRecords m1))"
proof
  from markAttendance_ok [OF pk, of d t1] obtain r1 tbl1
    where c1: "markAttendance d t1 tbl = (Inr (Some r1), tbl1)"
      and s1: "db_select (lessonId d) (studentId d) tbl1 = [r1]"
      and pk1: "primaryKeyOk tbl1"
    by blast
  from markAttendance_update_ok [OF pk1 s1, of t2] obtain r2 tbl2
    where c2: "markAttendance d t2 tbl1 = (Inr (Some r2), tbl2)"
      and r2: "marked d t2 r2" "att_id r2 = att_id r1"
        "db_select (lessonId d) (studentId d) tbl2 = [r2]"
        "length (rows tbl2) + length ([] :: attendance list) = length (rows tbl1)"
    by blast
  have "status r2 = status d" "markedAt r2 = Some t2"
    using r2(1) by (simp_all add: marked_def)
  moreover have "length (rows tbl2) = length (rows tbl1)"
    using r2(4) by simp
  ultimately show "\<exists>r1 tbl1 r2 tbl2.
             markAttendance d t1 tbl = (Inr (Some r1), tbl1)
           \<and> markAttendance d t2 tbl1 = (Inr (Some r2), tbl2)
           \<and> db_select (lessonId d) (studentId d) tbl2 = [r2]
           \<and> status r2 = status d \<and> markedAt r2 = Some t2
           \<and> att_id r2 = att_id r1 \<and> length (rows tbl2) = length (rows tbl1)"
    using c1 c2 r2(2,3) by blast
next
  from mem_markAttendance_ok [OF mem, of d t1] obtain a1 m1
    where c1: "mem_markAttendance d t1 m = (a1, m1)"
      and s1: "mem_select (lessonId d) (studentId d) m1 = [a1]"
      and ok1: "memOk m1"
    by blast
  have "find (samePair (lessonId d) (studentId d)) (map snd (attendanceRecords m1)) = Some a1"
    using s1 unfolding mem_select_def by (rule filter_single_find)
  from mem_update_ok [OF ok1 this, of t2] obtain a2 m2
    where c2: "mem_markAttendance d t2 m1 = (a2, m2)"
      and a2: "marked d t2 a2" "att_id a2 = att_id a1"
        "mem_select (lessonId d) (studentId d) m2 = [a2]"
        "length (attendanceRecords m2) = length (attendanceRecords m1)"
    by blast
  have "status a2 = status d" "markedAt a2 = Some t2"
    using a2(1) by (simp_all add: marked_def)
  then show "\<exists>a1 m1 a2 m2.
             mem_markAttendance d t1 m = (a1, m1)
           \<and> mem_markAttendance d t2 m1 = (a2, m2)
           \<and> mem_select (lessonId d) (studentId d) m2 = [a2]
           \<and> status a2 = status d \<and> markedAt a2 = Some t2
           \<and> att_id a2 = att_id a1
           \<and> length (attendanceRecords m2) = length (attendanceRecords m1)"
    using c1 c2 a2(2-4) by blast
qed

theorem mark_twice_one_row_witness:
  "primaryKeyOk emptyTable \<and> memOk emptyMem
   \<and> (\<exists>r1 tbl1 r2 tbl2.
         markAttendance scenarioMark 100 emptyTable = (Inr (Some r1), tbl1)
       \<and> markAttendance scenarioMark 200 tbl1 = (Inr (Some r2), tbl2)
       \<and> db_select 1 20 tbl2 = [r2]
       \<and> status r2 = Present \<and> markedAt r2 = Some 200
       \<and> att_id r2 = att_id r1 \<and> length (rows tbl2) = length (rows tbl1))
   \<and> (\<exists>a1 m1 a2 m2.
         mem_markAttendance scenarioMark 100 emptyMem = (a1, m1)
       \<and> mem_markAttendance scenarioMark 200 m1 = (a2, m2)
       \<and> mem_select 1 20 m2 = [a2]
       \<and> status a2 = Present \<and> markedAt a2 = Some 200
       \<and> att_id a2 = att_id a1
       \<and> length (attendanceRecords m2) = length (attendanceRecords m1))"
proof -
  have pk: "primaryKeyOk emptyTable"
    by (simp add: primaryKeyOk_def emptyTable_def)
  have mem: "memOk emptyMem"
    by (simp add: memOk_def emptyMem_def)
  show ?thesis
    using pk mem mark_twice_one_row [OF pk mem, of scenarioMark 100 200]
    by (simp add: scenarioMark_def)
qed

text \<open>
  Claim C8, as the code has it. On a table that satisfies the unique constraint on
  (lesson_id, student_id), two calls interleaved in any way, statement by statement, never
  leave two rows of one lesson and student: the constraint rejects the insert that would.
\<close>

theorem concurrent_marks_one_row:
  assumes "uniqueIdxOk tbl"
  shows "length (db_select lid sid
           (snd (snd (interleave d1 t1 d2 t2 sched (AtSelect, AtSelect, tbl))))) \<le> 1"
  using uniqueIdx_interleave [OF assms] by (rule uniqueIdx_select)

theorem concurrent_marks_one_row_witness:
  "uniqueIdxOk emptyTable
   \<and> length (db_select 1 20
        (snd (snd (interleave scenarioMark 100 scenarioMark 200 [True, False, True, False]
                     (AtSelect, AtSelect, emptyTable))))) \<le> 1"
proof -
  have u: "uniqueIdxOk emptyTable"
    by (simp add: uniqueIdxOk_def emptyTable_def)
  show ?thesis
    using u concurrent_marks_one_row [OF u, of 1 20 scenarioMark 100 scenarioMark 200
        "[True, False, True, False]"]
    by (rule conjI)
qed

text \<open>
  The claim as stated fails: the call is not atomic. When both calls select before either
  inserts, the second insert throws the violation of the unique constraint, which happens
  in neither order of running one call after the other: there both calls return the row.
\<close>

theorem concurrent_marks_counterexample:
  "fst (snd (interleave scenarioMark 100 scenarioMark 200 [True, False, True, False]
               (AtSelect, AtSelect, emptyTable)))
     = Threw (UniqueViolation 1 20)
   \<and> fst (snd (interleave scenarioMark 100 scenarioMark 200 [True, True, False, False]
               (AtSelect, AtSelect, emptyTable)))
     = Returned (Some \<lparr>lessonId = 1, studentId = 20, status = Present, att_id = 1,
                       markedAt = Some 200, att_createdAt = Some 100\<rparr>)
   \<and> fst (interleave scenarioMark 100 scenarioMark 200 [False, False, True, True]
               (AtSelect, AtSelect, emptyTable))
     = Returned (Some \<lparr>lessonId = 1, studentId = 20, status = Present, att_id = 1,
                       markedAt = Some 100, att_createdAt = Some 200\<rparr>)"
  by (simp add: scenarioMark_def emptyTable_def db_select_def db_insert_def db_update_def
      samePair_def Let_def)

section \<open>The lesson status\<close>

text \<open>
  Claim C9, as the code has it. With the end of the lesson at
  \<^verbatim>\<open>startTimeMinutes + durationMinutes\<close>, where a duration of 0 counts as 120: on the
  lesson's weekday the status is Completed after the end, In Progress from the start to the
  end, and Not Started before the start (and not after the end); on another weekday it is
  Completed when the lesson's weekday is before today's or today is Sunday, and Not Started
  otherwise.
\<close>

theorem lesson_status_rule:
  "(let day = getDay tz now;
        mins = getHours tz now * 60 + getMinutes tz now;
        endMins = startTimeMinutes l
                    + (if durationMinutes l = 0 then 120 else durationMinutes l);
        s = lessonStatusAt tz now l
    in (dayOfWeek l = day \<and> endMins < mins \<longrightarrow> s = Completed)
     \<and> (dayOfWeek l = day \<and> startTimeMinutes l \<le> mins \<and> mins \<le> endMins
          \<longrightarrow> s = InProgress)
     \<and> (dayOfWeek l = day \<and> mins < startTimeMinutes l \<and> mins \<le> endMins
          \<longrightarrow> s = NotStarted)
     \<and> (dayOfWeek l \<noteq> day \<and> (dayOfWeek l < day \<or> day = 0) \<longrightarrow> s = Completed)
     \<and> (dayOfWeek l \<noteq> day \<and> day < dayOfWeek l \<and> day \<noteq> 0 \<longrightarrow> s = NotStarted))"
  using getDay_range [of tz now]
  by (auto simp: lessonStatusAt_def lessonStatusOf_def orDefault_def Let_def)

theorem lesson_status_rule_witness:
  "lessonStatusAt 0 (scenarioDay + 555 * msPerMinute) scenarioLesson = InProgress
   \<and> lessonStatusAt 0 (scenarioDay + 601 * msPerMinute) scenarioLesson = Completed
   \<and> lessonStatusAt 0 (scenarioDay + 555 * msPerMinute) (scenarioLesson\<lparr>dayOfWeek := 2\<rparr>)
       = NotStarted"
  using lesson_status_rule [of 0 "scenarioDay + 555 * msPerMinute" scenarioLesson]
    lesson_status_rule [of 0 "scenarioDay + 601 * msPerMinute" scenarioLesson]
    lesson_status_rule [of 0 "scenarioDay + 555 * msPerMinute" "scenarioLesson\<lparr>dayOfWeek := 2\<rparr>"]
  by (simp add: scenario_defs clock_defs Let_def)

text \<open>
  The claim as stated fails for a lesson of duration 0: an hour after its start the
  current minutes exceed \<^verbatim>\<open>startTimeMinutes + durationMinutes\<close>, and the status is In
  Progress.
\<close>

theorem lesson_status_counterexample:
  "startTimeMinutes (scenarioLesson\<lparr>durationMinutes := 0\<rparr>)
       + durationMinutes (scenarioLesson\<lparr>durationMinutes := 0\<rparr>)
     < getHours 0 (scenarioDay + 600 * msPerMinute) * 60
       + getMinutes 0 (scenarioDay + 600 * msPerMinute)
   \<and> dayOfWeek (scenarioLesson\<lparr>durationMinutes := 0\<rparr>)
       = getDay 0 (scenarioDay + 600 * msPerMinute)
   \<and> lessonStatusAt 0 (scenarioDay + 600 * msPerMinute) (scenarioLesson\<lparr>durationMinutes := 0\<rparr>)
       \<noteq> Completed"
  by (simp add: lessonStatusAt_def lessonStatusOf_def orDefault_def scenario_defs clock_defs)

section \<open>The window and \<^verbatim>\<open>attendanceWindowMinutes\<close>\<close>

text \<open>
  Claim C10. For a lesson that is not instant, the answer of the route and the attendance
  table it leaves do not depend on the lesson's \<^verbatim>\<open>attendanceWindowMinutes\<close>: storing
  any other value in the lesson gives the same response, payload included.
\<close>

theorem window_ignores_attendanceWindowMinutes:
  assumes "lessonsTable st lid = Some l" "\<not> truthy (isInstantLesson now l)"
  shows "postAttendance tz now t req
           (st\<lparr>lessonsTable := (lessonsTable st)(lid \<mapsto> l\<lparr>attendanceWindowMinutes := w\<rparr>)\<rparr>)
         = (fst (postAttendance tz now t req st),
            (snd (postAttendance tz now t req st))
              \<lparr>lessonsTable := (lessonsTable st)(lid \<mapsto> l\<lparr>attendanceWindowMinutes := w\<rparr>)\<rparr>)"
proof -
  let ?l = "l\<lparr>attendanceWindowMinutes := w\<rparr>"
  have inst: "isInstantLesson now ?l = isInstantLesson now l"
    by (simp add: isInstantLesson_def)
  have ld: "lessonDate tz now ?l = lessonDate tz now l"
    by (simp add: lessonDate_def)
  have s: "preClassWindow tz now ?l = preClassWindow tz now l"
    using assms(2) by (simp add: preClassWindow_def inst ld)
  have e: "lessonEndTime tz now ?l = lessonEndTime tz now l"
    using assms(2) by (simp add: lessonEndTime_def inst ld)
  have f: "futureLesson tz now u ?l = futureLesson tz now u l" for u
    by (simp add: futureLesson_def daysUntilNext_def)
  have c: "windowClosed tz now b u ?l = windowClosed tz now b u l" for b u
    by (simp add: windowClosed_def s e)
  show ?thesis
    using assms(1)
    by (auto simp: postAttendance_def getLesson_def inst s e f c
        split: option.split sum.split prod.split)
qed

theorem window_ignores_attendanceWindowMinutes_witness:
  "\<not> truthy (isInstantLesson (scenarioDay + 630 * msPerMinute) scenarioLesson)
   \<and> postAttendance 0 (scenarioDay + 630 * msPerMinute) (scenarioDay + 631 * msPerMinute)
        (scenarioRequest scenarioStudent)
        (scenarioStorage (scenarioLesson\<lparr>attendanceWindowMinutes := 120\<rparr>))
     = (fst (postAttendance 0 (scenarioDay + 630 * msPerMinute) (scenarioDay + 631 * msPerMinute)
               (scenarioRequest scenarioStudent) (scenarioStorage scenarioLesson)),
        scenarioStorage (scenarioLesson\<lparr>attendanceWindowMinutes := 120\<rparr>))"
proof -
  have h: "\<not> truthy (isInstantLesson (scenarioDay + 630 * msPerMinute) scenarioLesson)"
    by (simp add: isInstantLesson_def scenario_defs clock_defs)
  have l: "lessonsTable (scenarioStorage scenarioLesson) 1 = Some scenarioLesson"
    by (simp add: scenarioStorage_def)
  have s: "snd (postAttendance 0 (scenarioDay + 630 * msPerMinute)
                  (scenarioDay + 631 * msPerMinute)
                  (scenarioRequest scenarioStudent) (scenarioStorage scenarioLesson))
             = scenarioStorage scenarioLesson"
    by (simp add: postAttendance_def futureLesson_def windowClosed_def lessonEndTime_def
        preClassWindow_def isInstantLesson_def lessonDate_def daysUntilNext_def getLesson_def
        scenario_defs clock_defs signed_modulo_int_def)
  show ?thesis
    using h window_ignores_attendanceWindowMinutes [OF l h, of 0
        "scenarioDay + 631 * msPerMinute" "scenarioRequest scenarioStudent" 120]
    unfolding s by (simp add: scenarioStorage_def)
qed

end
